theory Spec2Isabelle
  imports Complex_Main
begin

section \<open>Numeric values\<close>

text \<open>
  The arrays of \<open>objectives.py\<close> hold numpy \<open>float64\<close> values. The model keeps the
  special values that numpy's arithmetic produces without raising: a division by zero
  gives \<open>nan\<close> or an infinity, not an exception, and a result whose magnitude leaves
  the range of \<open>float64\<close> overflows to the infinity of its sign. A result within the
  range is computed exactly: rounding and underflow are not modelled, and there is a
  single unsigned zero.
\<close>

datatype npfloat = Fin real | PInf | NInf | NaN

fun is_finite :: "npfloat \<Rightarrow> bool" where
  "is_finite (Fin _) = True"
| "is_finite _ = False"

fun fl_neg :: "npfloat \<Rightarrow> npfloat" where
  "fl_neg (Fin a) = Fin (- a)"
| "fl_neg PInf = NInf"
| "fl_neg NInf = PInf"
| "fl_neg NaN = NaN"

text \<open>The infinity of the given sign (\<open>True\<close> is positive).\<close>

definition inf_of :: "bool \<Rightarrow> npfloat" where
  "inf_of pos = (if pos then PInf else NInf)"

text \<open>
  The largest \<open>float64\<close> is \<open>2^1024 - 2^971\<close>. Round-to-nearest gives an infinity to
  every result whose magnitude is at least \<open>2^1024 - 2^970\<close>, half a unit in the last
  place above it. \<open>to_float\<close> is the value stored for an exact result.
\<close>

definition overflow_threshold :: real where
  "overflow_threshold = 2 ^ 1024 - 2 ^ 970"

definition to_float :: "real \<Rightarrow> npfloat" where
  "to_float x = (if \<bar>x\<bar> < overflow_threshold then Fin x else inf_of (0 < x))"

fun fl_add :: "npfloat \<Rightarrow> npfloat \<Rightarrow> npfloat" where
  "fl_add (Fin a) (Fin b) = to_float (a + b)"
| "fl_add NaN _ = NaN"
| "fl_add _ NaN = NaN"
| "fl_add PInf NInf = NaN"
| "fl_add NInf PInf = NaN"
| "fl_add PInf _ = PInf"
| "fl_add _ PInf = PInf"
| "fl_add NInf _ = NInf"
| "fl_add _ NInf = NInf"

definition fl_sub :: "npfloat \<Rightarrow> npfloat \<Rightarrow> npfloat" where
  "fl_sub a b = fl_add a (fl_neg b)"

fun fl_mul :: "npfloat \<Rightarrow> npfloat \<Rightarrow> npfloat" where
  "fl_mul (Fin a) (Fin b) = to_float (a * b)"
| "fl_mul NaN _ = NaN"
| "fl_mul _ NaN = NaN"
| "fl_mul PInf (Fin b) = (if b = 0 then NaN else inf_of (0 < b))"
| "fl_mul NInf (Fin b) = (if b = 0 then NaN else inf_of (b < 0))"
| "fl_mul (Fin a) PInf = (if a = 0 then NaN else inf_of (0 < a))"
| "fl_mul (Fin a) NInf = (if a = 0 then NaN else inf_of (a < 0))"
| "fl_mul PInf PInf = PInf"
| "fl_mul PInf NInf = NInf"
| "fl_mul NInf PInf = NInf"
| "fl_mul NInf NInf = PInf"

fun fl_div :: "npfloat \<Rightarrow> npfloat \<Rightarrow> npfloat" where
  "fl_div (Fin a) (Fin b) =
     (if b \<noteq> 0 then to_float (a / b) else if a = 0 then NaN else inf_of (0 < a))"
| "fl_div NaN _ = NaN"
| "fl_div _ NaN = NaN"
| "fl_div (Fin a) PInf = Fin 0"
| "fl_div (Fin a) NInf = Fin 0"
| "fl_div PInf (Fin b) = inf_of (0 \<le> b)"
| "fl_div NInf (Fin b) = inf_of (b < 0)"
| "fl_div PInf PInf = NaN"
| "fl_div PInf NInf = NaN"
| "fl_div NInf PInf = NaN"
| "fl_div NInf NInf = NaN"

type_synonym vec = "npfloat list"
type_synonym mat = "npfloat list list"

definition fl_sum :: "vec \<Rightarrow> npfloat" where
  "fl_sum xs = foldl fl_add (Fin 0) xs"

text \<open>\<open>a.dot(b)\<close> for two vectors, a matrix and a vector, and two matrices.\<close>

definition dot_vv :: "vec \<Rightarrow> vec \<Rightarrow> npfloat" where
  "dot_vv a b = fl_sum (map2 fl_mul a b)"

definition dot_mv :: "mat \<Rightarrow> vec \<Rightarrow> vec" where
  "dot_mv a v = map (\<lambda>row. dot_vv row v) a"

definition dot_mm :: "mat \<Rightarrow> mat \<Rightarrow> mat" where
  "dot_mm a b = map (\<lambda>row. map (\<lambda>col. dot_vv row col) (transpose b)) a"

section \<open>Quaternion representation matrices\<close>

datatype error = AssertionError | AttributeError | IndexError | LinAlgError | NameError
  | TypeError | ValueError

text \<open>\<open>makeW(r1, r2, r3, r4=0)\<close>, eqn 16 of Walker91.\<close>

definition makeW :: "npfloat \<Rightarrow> npfloat \<Rightarrow> npfloat \<Rightarrow> npfloat \<Rightarrow> mat" where
  "makeW r1 r2 r3 r4 =
     [[r4, r3, fl_neg r2, r1],
      [fl_neg r3, r4, r1, r2],
      [r2, fl_neg r1, r4, r3],
      [fl_neg r1, fl_neg r2, fl_neg r3, r4]]"

text \<open>\<open>makeQ(r1, r2, r3, r4=0)\<close>, eqn 15 of Walker91.\<close>

definition makeQ :: "npfloat \<Rightarrow> npfloat \<Rightarrow> npfloat \<Rightarrow> npfloat \<Rightarrow> mat" where
  "makeQ r1 r2 r3 r4 =
     [[r4, fl_neg r3, r2, r1],
      [r3, r4, fl_neg r1, r2],
      [fl_neg r2, r1, r4, r3],
      [fl_neg r1, fl_neg r2, fl_neg r3, r4]]"

text \<open>
  \<open>makeW(*r)\<close> and \<open>makeQ(*r)\<close>: the sequence is unpacked into the three or four
  positional parameters; any other length is a \<open>TypeError\<close>.
\<close>

fun makeW_star :: "vec \<Rightarrow> error + mat" where
  "makeW_star [r1, r2, r3] = Inr (makeW r1 r2 r3 (Fin 0))"
| "makeW_star [r1, r2, r3, r4] = Inr (makeW r1 r2 r3 r4)"
| "makeW_star _ = Inl TypeError"

fun makeQ_star :: "vec \<Rightarrow> error + mat" where
  "makeQ_star [r1, r2, r3] = Inr (makeQ r1 r2 r3 (Fin 0))"
| "makeQ_star [r1, r2, r3, r4] = Inr (makeQ r1 r2 r3 r4)"
| "makeQ_star _ = Inl TypeError"

text \<open>
  \<open>transform(r, s)\<close>: \<open>Wt_r.dot(s)\<close> needs \<open>s\<close> to have the four entries of a row of
  \<open>Wt_r\<close> and is a \<open>ValueError\<close> otherwise.
\<close>

definition transform :: "vec \<Rightarrow> vec \<Rightarrow> error + (mat \<times> vec)" where
  "transform r s =
     (case makeW_star r of Inl e \<Rightarrow> Inl e | Inr W_r \<Rightarrow>
       (case makeQ_star r of Inl e \<Rightarrow> Inl e | Inr Q_r \<Rightarrow>
          (let Wt_r = transpose W_r;
               rot = map (take 3) (take 3 (dot_mm Wt_r Q_r))
           in if length s \<noteq> 4 then Inl ValueError
              else Inr (rot, take 3 (dot_mv Wt_r s)))))"


section \<open>The scorer object\<close>

text \<open>
  The \<open>Ordering\<close> object \<open>M\<close> that \<open>Rotation\<close> reads: the coordinates (an \<open>N*3\<close>
  array: one triple per atom), the numbers of rigid groups (counts, hence naturals), the
  atom indices of each group, and the match matrix. A two-dimensional array is the list
  of its rows, so an array without rows does not record the length of a row; numpy's
  behaviour on a side without atoms is not followed there.
\<close>

type_synonym coord = "npfloat \<times> npfloat \<times> npfloat"

definition vec_of :: "coord \<Rightarrow> vec" where
  "vec_of x = (case x of (x1, x2, x3) \<Rightarrow> [x1, x2, x3])"

record ordering =
  products_coordinates :: "coord list"
  reactants_coordinates :: "coord list"
  num_reactants :: nat
  num_products :: nat
  reactant_subset_indices :: "nat list list"
  product_subset_indices :: "nat list list"
  match_matrix :: mat

datatype solver = Analytical_solver | Numerical_solver

text \<open>
  The attributes that \<open>__init__\<close> sets on \<open>self\<close>. \<open>self_q\<close> is the array of shape
  \<open>(N+M-1, 2, 4)\<close>: entry \<open>k\<close> is the pair \<open>[s\<^sub>k, r\<^sub>k]\<close>.
\<close>

record rotation =
  self_M :: ordering
  self_X :: "coord list"
  self_Y :: "coord list"
  self_score :: solver
  self_q :: "vec list list"
  self_W :: "mat list"
  self_Q :: "mat list"
  self_Qt_dot_W :: "mat list list"
  self_W_minus_Q :: "mat list list"
  self_squared_distances :: mat

text \<open>\<open>np.zeros((n, 2, 4))\<close> followed by \<open>q[:,1,3] = 1\<close>; a negative dimension is a \<open>ValueError\<close>.\<close>

definition initialize_quaternions :: "ordering \<Rightarrow> error + vec list list" where
  "initialize_quaternions m =
     (let N = num_reactants m; M = num_products m
      in if N + M = 0 then Inl ValueError
         else Inr (map (\<lambda>p. p[1 := (p ! 1)[3 := Fin 1]])
                    (replicate (N + M - 1) (replicate 2 (replicate 4 (Fin 0))))))"

definition set_solver :: "ordering \<Rightarrow> solver" where
  "set_solver m =
     (if num_reactants m = 1 \<or> num_products m = 1 then Analytical_solver
      else Numerical_solver)"

definition mat_sub :: "mat \<Rightarrow> mat \<Rightarrow> mat" where
  "mat_sub a b = map2 (map2 fl_sub) a b"

text \<open>
  \<open>interaction_arrays\<close>: \<open>makeW(*x)\<close> receives the three coordinates of an atom, so
  \<open>r4\<close> takes its default \<open>0\<close>.
\<close>

definition interaction_arrays ::
  "coord list \<Rightarrow> coord list \<Rightarrow> mat list \<times> mat list \<times> mat list list \<times> mat list list" where
  "interaction_arrays X Y =
     (let W = map (\<lambda>(x1, x2, x3). makeW x1 x2 x3 (Fin 0)) X;
          Q = map (\<lambda>(y1, y2, y3). makeQ y1 y2 y3 (Fin 0)) Y
      in (W, Q,
          map (\<lambda>w. map (\<lambda>q. dot_mm (transpose q) w) Q) W,
          map (\<lambda>w. map (\<lambda>q. mat_sub w q) Q) W))"

text \<open>\<open>np.zeros(a.shape)\<close>.\<close>

definition zeros_like :: "mat \<Rightarrow> mat" where
  "zeros_like a = map (map (\<lambda>_. Fin 0)) a"

text \<open>\<open>Rotation.__init__\<close>: note that \<open>self.X\<close> is the products' coordinates.\<close>

definition init :: "ordering \<Rightarrow> error + rotation" where
  "init m =
     (let X = products_coordinates m; Y = reactants_coordinates m; sc = set_solver m
      in case initialize_quaternions m of Inl e \<Rightarrow> Inl e | Inr q0 \<Rightarrow>
           (case interaction_arrays X Y of (W, Q, QtW, WmQ) \<Rightarrow>
              Inr \<lparr>self_M = m, self_X = X, self_Y = Y, self_score = sc, self_q = q0,
                   self_W = W, self_Q = Q, self_Qt_dot_W = QtW, self_W_minus_Q = WmQ,
                   self_squared_distances = zeros_like (match_matrix m)\<rparr>))"


section \<open>Indexing\<close>

text \<open>
  Atom indices are naturals. An index past the end raises \<open>IndexError\<close>, for a single
  element (\<open>a[i]\<close>), an index array (\<open>a[idx]\<close>) and a cross product of two index arrays
  (\<open>a[np.ix_(rows, cols)]\<close>).
\<close>

definition getitem :: "'a list \<Rightarrow> nat \<Rightarrow> error + 'a" where
  "getitem a i = (if i < length a then Inr (a ! i) else Inl IndexError)"

definition take_idx :: "'a list \<Rightarrow> nat list \<Rightarrow> error + 'a list" where
  "take_idx a idx = (if \<forall>i\<in>set idx. i < length a then Inr (map ((!) a) idx) else Inl IndexError)"

definition ix_ok :: "'a list list \<Rightarrow> nat list \<Rightarrow> nat list \<Rightarrow> bool" where
  "ix_ok a rows cols \<longleftrightarrow>
     (\<forall>i\<in>set rows. i < length a) \<and> (\<forall>row\<in>set a. \<forall>j\<in>set cols. j < length row)"

definition getitem_ix :: "'a list list \<Rightarrow> nat list \<Rightarrow> nat list \<Rightarrow> error + 'a list list" where
  "getitem_ix a rows cols =
     (if ix_ok a rows cols then Inr (map (\<lambda>i. map (\<lambda>j. a ! i ! j) cols) rows)
      else Inl IndexError)"

text \<open>
  \<open>a[np.ix_(rows, cols)] = v\<close> for a value \<open>v\<close> with one row per entry of \<open>rows\<close>: entry
  \<open>(rows[i], cols[j])\<close> becomes \<open>v[i][j]\<close>, a later write to the same place winning.
\<close>

definition setitem_ix :: "mat \<Rightarrow> nat list \<Rightarrow> nat list \<Rightarrow> mat \<Rightarrow> error + mat" where
  "setitem_ix a rows cols v =
     (if ix_ok a rows cols
      then Inr (fold (\<lambda>(i, vrow) b. b[i := fold (\<lambda>(j, x) row. row[j := x]) (zip cols vrow) (b ! i)])
                  (zip rows v) a)
      else Inl IndexError)"

section \<open>The single-body analytical solver\<close>

definition mat_add :: "mat \<Rightarrow> mat \<Rightarrow> mat" where
  "mat_add a b = map2 (map2 fl_add) a b"

definition mat_scale :: "npfloat \<Rightarrow> mat \<Rightarrow> mat" where
  "mat_scale c a = map (map (fl_mul c)) a"

definition mat_div :: "mat \<Rightarrow> npfloat \<Rightarrow> mat" where
  "mat_div a d = map (map (\<lambda>x. fl_div x d)) a"

definition zeros44 :: mat where
  "zeros44 = replicate 4 (replicate 4 (Fin 0))"

text \<open>\<open>np.sum(m[:,:,None,None]*t, axis=(0,1))\<close> for \<open>t\<close> of shape \<open>(n, k, 4, 4)\<close>.\<close>

definition weighted_sum :: "mat \<Rightarrow> mat list list \<Rightarrow> mat" where
  "weighted_sum m t = foldl mat_add zeros44 (concat (map2 (map2 mat_scale) m t))"

text \<open>
  \<open>np.isclose\<close> with the default \<open>rtol=1e-05, atol=1e-08\<close>: two finite values are
  compared within the tolerance, anything else for equality, and \<open>nan\<close> equals nothing.
\<close>

fun isclose :: "npfloat \<Rightarrow> npfloat \<Rightarrow> bool" where
  "isclose (Fin a) (Fin b) = (\<bar>a - b\<bar> \<le> 1 / 10 ^ 8 + 1 / 10 ^ 5 * \<bar>b\<bar>)"
| "isclose PInf PInf = True"
| "isclose NInf NInf = True"
| "isclose _ _ = False"

definition allclose_v :: "vec \<Rightarrow> vec \<Rightarrow> bool" where
  "allclose_v a b = list_all2 isclose a b"

definition allclose :: "mat \<Rightarrow> mat \<Rightarrow> bool" where
  "allclose a b = list_all2 (list_all2 isclose) a b"

text \<open>The three quantities of lines 129 to 131 and the matrix \<open>A\<close> of line 132.\<close>

definition make_C1 :: "mat \<Rightarrow> mat list list \<Rightarrow> mat" where
  "make_C1 match_sub_matrix Qt_dot_W = mat_scale (Fin (- 2)) (weighted_sum match_sub_matrix Qt_dot_W)"

definition make_C2 :: "mat \<Rightarrow> npfloat" where
  "make_C2 match_sub_matrix = fl_sum (concat match_sub_matrix)"

definition make_C3 :: "mat \<Rightarrow> mat list list \<Rightarrow> mat" where
  "make_C3 match_sub_matrix W_minus_Q = mat_scale (Fin 2) (weighted_sum match_sub_matrix W_minus_Q)"

definition make_A :: "mat \<Rightarrow> npfloat \<Rightarrow> mat \<Rightarrow> mat" where
  "make_A C1 C2 C3 =
     mat_scale (Fin (1 / 2))
       (mat_sub (mat_sub (mat_div (dot_mm (transpose C3) C3) (fl_mul (Fin 2) C2)) C1)
          (transpose C1))"

text \<open>
  \<open>np.linalg.eigh\<close> is a parameter of the model: it returns the eigenvalues in ascending
  order and the matrix whose columns are the eigenvectors, or raises. \<open>eigen[1][:,-1]\<close>
  is the last column and \<open>eigen[0][-1]\<close> the last eigenvalue.
\<close>

type_synonym eigh_fun = "mat \<Rightarrow> error + (vec \<times> mat)"

definition last_column :: "mat \<Rightarrow> error + vec" where
  "last_column v = (if \<exists>row\<in>set v. row = [] then Inl IndexError else Inr (map last v))"

definition last_item :: "vec \<Rightarrow> error + npfloat" where
  "last_item w = (if w = [] then Inl IndexError else Inr (last w))"

text \<open>\<open>a.dot(v)\<close> raises \<open>ValueError\<close> when a row of \<open>a\<close> and \<open>v\<close> differ in length.\<close>

definition dot_mv_checked :: "mat \<Rightarrow> vec \<Rightarrow> error + vec" where
  "dot_mv_checked a v =
     (if \<forall>row\<in>set a. length row = length v then Inr (dot_mv a v) else Inl ValueError)"

text \<open>
  \<open>np.sum((Y[None,:,:] - trans[None,None,:] - rot.dot(X.T).T[:,None,:])**2, axis=2)\<close>:
  the first axis of the result follows \<open>X\<close>, the second follows \<open>Y\<close>.
\<close>

definition squared_distance_block :: "coord list \<Rightarrow> vec \<Rightarrow> mat \<Rightarrow> coord list \<Rightarrow> mat" where
  "squared_distance_block Y trans_v rot X =
     map (\<lambda>rx. map (\<lambda>y. fl_sum (map (\<lambda>d. fl_mul d d) (map2 fl_sub (map2 fl_sub (vec_of y) trans_v) rx))) Y)
       (transpose (dot_mm rot (transpose (map vec_of X))))"


text \<open>
  The body of the double loop of \<open>analytical_solver\<close> for one pair of groups, in two
  parts. The first is lines 122 to 141 and the right-hand side of line 142: it reads
  the arrays fixed at construction and the match matrix, and computes the block of
  squared distances.
\<close>

definition block_distances ::
  "eigh_fun \<Rightarrow> mat \<Rightarrow> nat list \<Rightarrow> nat list \<Rightarrow> rotation \<Rightarrow> error + mat" where
  "block_distances eigh match reactant_indices product_indices self =
     (case take_idx (self_X self) product_indices of Inl e \<Rightarrow> Inl e | Inr X \<Rightarrow>
     (case take_idx (self_Y self) reactant_indices of Inl e \<Rightarrow> Inl e | Inr Y \<Rightarrow>
     (case getitem_ix match reactant_indices product_indices of Inl e \<Rightarrow> Inl e
      | Inr match_sub_matrix \<Rightarrow>
     (case getitem_ix (self_Qt_dot_W self) reactant_indices product_indices of Inl e \<Rightarrow> Inl e
      | Inr Qt_dot_W \<Rightarrow>
     (case getitem_ix (self_W_minus_Q self) reactant_indices product_indices of Inl e \<Rightarrow> Inl e
      | Inr W_minus_Q \<Rightarrow>
       (let C1 = make_C1 match_sub_matrix Qt_dot_W;
            C2 = make_C2 match_sub_matrix;
            C3 = make_C3 match_sub_matrix W_minus_Q;
            A = make_A C1 C2 C3
        in if \<not> allclose A (transpose A) then Inl AssertionError
           else
     (case eigh A of Inl e \<Rightarrow> Inl e | Inr (eigen0, eigen1) \<Rightarrow>
     (case last_column eigen1 of Inl e \<Rightarrow> Inl e | Inr r \<Rightarrow>
     (case dot_mv_checked A r of Inl e \<Rightarrow> Inl e | Inr A_r \<Rightarrow>
     (case last_item eigen0 of Inl e \<Rightarrow> Inl e | Inr ev \<Rightarrow>
        if \<not> allclose_v A_r (map (fl_mul ev) r) then Inl AssertionError
        else
     (case dot_mv_checked C3 r of Inl e \<Rightarrow> Inl e | Inr C3_r \<Rightarrow>
       (let s = map (\<lambda>x. fl_div x (fl_mul (Fin 2) C2)) (map fl_neg C3_r)
        in
     (case transform r s of Inl e \<Rightarrow> Inl e | Inr (rot, trans_v) \<Rightarrow>
        Inr (squared_distance_block Y trans_v rot X))))))))))))))"

text \<open>
  The second part is the assignment of line 142, which overwrites one block of
  \<open>self.squared_distances\<close>. The value has shape
  \<open>(len(product_indices), len(reactant_indices))\<close> and the block addressed has the
  transposed shape, so the assignment broadcasts only when the two groups have the same
  size and is a \<open>ValueError\<close> otherwise.
\<close>

definition analytical_block ::
  "eigh_fun \<Rightarrow> mat \<Rightarrow> nat list \<Rightarrow> nat list \<Rightarrow> rotation \<Rightarrow> error + rotation" where
  "analytical_block eigh match reactant_indices product_indices self =
     (case block_distances eigh match reactant_indices product_indices self of Inl e \<Rightarrow> Inl e
      | Inr v \<Rightarrow>
        if length product_indices \<noteq> length reactant_indices then Inl ValueError
        else
     (case setitem_ix (self_squared_distances self) reactant_indices product_indices v of
        Inl e \<Rightarrow> Inl e
      | Inr d \<Rightarrow> Inr (self\<lparr>self_squared_distances := d\<rparr>)))"

text \<open>
  A \<open>for\<close> loop whose body may raise: the state reached so far is kept (the arrays are
  mutated in place) and the exception ends the loop.
\<close>

fun for_each :: "('a \<Rightarrow> 's \<Rightarrow> error + 's) \<Rightarrow> 'a list \<Rightarrow> 's \<Rightarrow> 's \<times> error option" where
  "for_each body [] s = (s, None)"
| "for_each body (x # xs) s =
     (case body x s of Inl e \<Rightarrow> (s, Some e) | Inr s' \<Rightarrow> for_each body xs s')"

text \<open>The same for a loop whose body is itself such a loop.\<close>

fun for_each_nested :: "('a \<Rightarrow> 's \<Rightarrow> 's \<times> error option) \<Rightarrow> 'a list \<Rightarrow> 's \<Rightarrow> 's \<times> error option" where
  "for_each_nested body [] s = (s, None)"
| "for_each_nested body (x # xs) s =
     (case body x s of (s', Some e) \<Rightarrow> (s', Some e) | (s', None) \<Rightarrow> for_each_nested body xs s')"

text \<open>
  \<open>analytical_solver(match)\<close>: the new state of \<open>self\<close> and either the exception raised
  or the array returned, which is \<open>self.squared_distances\<close>.
\<close>

definition analytical_solver :: "eigh_fun \<Rightarrow> rotation \<Rightarrow> mat \<Rightarrow> rotation \<times> (error + mat)" where
  "analytical_solver eigh self match =
     (case getitem (reactant_subset_indices (self_M self)) 0 of Inl e \<Rightarrow> (self, Inl e)
      | Inr ref_indices \<Rightarrow>
     (case take_idx (self_Y self) ref_indices of Inl e \<Rightarrow> (self, Inl e) | Inr Y0 \<Rightarrow>
     (case for_each_nested
             (\<lambda>reactant_indices.
                for_each (\<lambda>product_indices. analytical_block eigh match reactant_indices product_indices)
                  (product_subset_indices (self_M self)))
             (reactant_subset_indices (self_M self)) self of
        (self', Some e) \<Rightarrow> (self', Inl e)
      | (self', None) \<Rightarrow> (self', Inr (self_squared_distances self')))))"


section \<open>Attribute lookup\<close>

text \<open>
  The values bound to names on a \<open>Rotation\<close> instance: the attributes assigned in
  \<open>__init__\<close> and the methods of the class. Any other name raises \<open>AttributeError\<close>.
\<close>

datatype pyobj =
    Ordering_obj ordering
  | Coords "coord list"
  | Array2 mat
  | Array3 "vec list list"
  | Arrays44 "mat list"
  | Arrays44_2 "mat list list"
  | Method string

definition method_names :: "string list" where
  "method_names =
     [''initialize_quaternions'', ''set_solver'', ''analytical_solver'', ''numerical_solver'',
      ''semi_analytical_solver'', ''update_quarternions'', ''interaction_arrays'', ''makeW'',
      ''makeQ'', ''transform'']"

definition getattr :: "rotation \<Rightarrow> string \<Rightarrow> error + pyobj" where
  "getattr self name =
     (if name = ''M'' then Inr (Ordering_obj (self_M self))
      else if name = ''X'' then Inr (Coords (self_X self))
      else if name = ''Y'' then Inr (Coords (self_Y self))
      else if name = ''score'' then
        Inr (Method (case self_score self of Analytical_solver \<Rightarrow> ''analytical_solver''
                     | Numerical_solver \<Rightarrow> ''numerical_solver''))
      else if name = ''q'' then Inr (Array3 (self_q self))
      else if name = ''W'' then Inr (Arrays44 (self_W self))
      else if name = ''Q'' then Inr (Arrays44 (self_Q self))
      else if name = ''Qt_dot_W'' then Inr (Arrays44_2 (self_Qt_dot_W self))
      else if name = ''W_minus_Q'' then Inr (Arrays44_2 (self_W_minus_Q self))
      else if name = ''squared_distances'' then Inr (Array2 (self_squared_distances self))
      else if name \<in> set method_names then Inr (Method name)
      else Inl AttributeError)"

text \<open>\<open>update_quarternions(q)\<close>, the only method that stores a transform estimate.\<close>

definition update_quarternions :: "rotation \<Rightarrow> vec list list \<Rightarrow> rotation" where
  "update_quarternions self q' = self\<lparr>self_q := q'\<rparr>"

section \<open>The multi-body numerical solver\<close>

text \<open>\<open>flat_q.reshape(n, 2, 4)\<close> and the flattening of such an array.\<close>

definition reshape_q :: "nat \<Rightarrow> vec \<Rightarrow> error + vec list list" where
  "reshape_q n flat =
     (if length flat = 8 * n
      then Inr (map (\<lambda>k. [take 4 (drop (8 * k) flat), take 4 (drop (8 * k + 4) flat)]) [0..<n])
      else Inl ValueError)"

definition flatten_q :: "vec list list \<Rightarrow> vec" where
  "flatten_q q' = concat (concat q')"

text \<open>
  The two loops of lines 184 to 187, which write \<open>rot[k], trans[k] = self.transform(q[k, 1], q[k, 0])\<close>
  for the indices \<open>k\<close> they visit.
\<close>

fun fill_transforms ::
  "vec list list \<Rightarrow> nat list \<Rightarrow> mat list \<times> vec list \<Rightarrow> error + (mat list \<times> vec list)" where
  "fill_transforms q' [] rt = Inr rt"
| "fill_transforms q' (k # ks) rt =
     (case getitem q' k of Inl e \<Rightarrow> Inl e | Inr p \<Rightarrow>
     (case transform (p ! 1) (p ! 0) of Inl e \<Rightarrow> Inl e | Inr (r, t) \<Rightarrow>
        fill_transforms q' ks ((fst rt)[k := r], (snd rt)[k := t])))"

text \<open>
  The body of the loop of line 211, \<open>for i, reactant_indices in reactant_subset_indices[1:]\<close>.
  Each element is a group, an array of atom indices, and is unpacked into two names: a
  group of any size but two is a \<open>ValueError\<close>. For a group of two, \<open>i\<close> and
  \<open>reactant_indices\<close> are single indices; \<open>Y = self.X[reactant_indices]\<close> is then one
  coordinate row, and \<open>(rot[M+i].dot(Y.T).T)[None,:,:]\<close> indexes a one-dimensional
  array with two slices, an \<open>IndexError\<close>.
\<close>

definition remaining_reactant_step ::
  "rotation \<Rightarrow> nat \<Rightarrow> vec list \<Rightarrow> mat list \<Rightarrow> nat list \<Rightarrow> mat \<Rightarrow> error + mat" where
  "remaining_reactant_step self M trans_a rot_a grp d =
     (case grp of
        [i, reactant_indices] \<Rightarrow>
          (case getitem (self_X self) reactant_indices of Inl e \<Rightarrow> Inl e | Inr Y \<Rightarrow>
          (case getitem trans_a (M + i) of Inl e \<Rightarrow> Inl e | Inr t \<Rightarrow>
          (case getitem rot_a (M + i) of Inl e \<Rightarrow> Inl e | Inr r \<Rightarrow> Inl IndexError)))
      | _ \<Rightarrow> Inl ValueError)"

text \<open>The body of the loop of line 193 for product group \<open>j\<close>.\<close>

definition product_step ::
  "rotation \<Rightarrow> nat \<Rightarrow> vec list \<Rightarrow> mat list \<Rightarrow> nat list \<Rightarrow> coord list \<Rightarrow>
     nat \<times> nat list \<Rightarrow> mat \<Rightarrow> mat \<times> error option" where
  "product_step self M trans_a rot_a ref_indices Y0 jp d =
     (case jp of (j, product_indices) \<Rightarrow>
     (case take_idx (self_X self) product_indices of Inl e \<Rightarrow> (d, Some e) | Inr X \<Rightarrow>
     (case getitem trans_a j of Inl e \<Rightarrow> (d, Some e) | Inr t \<Rightarrow>
     (case getitem rot_a j of Inl e \<Rightarrow> (d, Some e) | Inr r \<Rightarrow>
        if length product_indices \<noteq> length ref_indices then (d, Some ValueError)
        else
     (case setitem_ix d ref_indices product_indices (squared_distance_block Y0 t r X) of
        Inl e \<Rightarrow> (d, Some e)
      | Inr d' \<Rightarrow>
          for_each (remaining_reactant_step self M trans_a rot_a)
            (drop 1 (reactant_subset_indices (self_M self))) d')))))"

text \<open>
  The inner function \<open>objective(flat_q, match, self)\<close>. It mutates only
  \<open>self.squared_distances\<close>, which is threaded through as \<open>d\<close>. With \<open>N + M = 0\<close> the
  shape \<open>N+M-1\<close> is negative and \<open>np.zeros\<close> raises. The returned expression reads
  \<open>self.match_matrix\<close>.
\<close>

definition objective :: "rotation \<Rightarrow> mat \<Rightarrow> vec \<Rightarrow> mat \<Rightarrow> mat \<times> (error + npfloat)" where
  "objective self match flat_q d =
     (let N = num_reactants (self_M self); M = num_products (self_M self)
      in if N + M = 0 then (d, Inl ValueError)
         else
     (case reshape_q (N + M - 1) flat_q of Inl e \<Rightarrow> (d, Inl e) | Inr q' \<Rightarrow>
     (case fill_transforms q' ([0..<M] @ map (\<lambda>i. M + i) [0..<N - 1])
             (replicate (N + M - 1) (replicate 3 (replicate 3 (Fin 0))),
              replicate (N + M - 1) (replicate 3 (Fin 0))) of
        Inl e \<Rightarrow> (d, Inl e)
      | Inr (rot_a, trans_a) \<Rightarrow>
     (case getitem (reactant_subset_indices (self_M self)) 0 of Inl e \<Rightarrow> (d, Inl e)
      | Inr ref_indices \<Rightarrow>
     (case take_idx (self_Y self) ref_indices of Inl e \<Rightarrow> (d, Inl e) | Inr Y0 \<Rightarrow>
     (case for_each_nested (product_step self M trans_a rot_a ref_indices Y0)
             (enumerate 0 (product_subset_indices (self_M self))) d of
        (d', Some e) \<Rightarrow> (d', Inl e)
      | (d', None) \<Rightarrow>
     (case getattr (self\<lparr>self_squared_distances := d'\<rparr>) ''match_matrix'' of
        Inl e \<Rightarrow> (d', Inl e)
      | Inr (Array2 mm) \<Rightarrow> (d', Inr (fl_sum (concat (map2 (map2 fl_mul) mm d'))))
      | Inr _ \<Rightarrow> (d', Inl TypeError))))))))"


text \<open>
  The slice \<open>x[a:b]\<close>, the elementwise product of two one-dimensional arrays, and the
  slice assignment \<open>x[a:b] = v\<close>. numpy broadcasts: two arrays are multiplied when
  they have the same length or one of them has length one, and a value is assigned to
  a slice when it has the length of the slice or length one; anything else is a
  \<open>ValueError\<close>.
\<close>

definition slice :: "'a list \<Rightarrow> nat \<Rightarrow> nat \<Rightarrow> 'a list" where
  "slice x a b = take (b - a) (drop a x)"

definition broadcast_mul :: "vec \<Rightarrow> vec \<Rightarrow> error + vec" where
  "broadcast_mul a b =
     (if length a = length b then Inr (map2 fl_mul a b)
      else if length a = 1 then Inr (map (fl_mul (a ! 0)) b)
      else if length b = 1 then Inr (map (\<lambda>x. fl_mul x (b ! 0)) a)
      else Inl ValueError)"

definition assign_slice :: "vec \<Rightarrow> nat \<Rightarrow> nat \<Rightarrow> vec \<Rightarrow> error + vec" where
  "assign_slice x a b v =
     (let n = length (slice x a b)
      in if length v = n then Inr (take a x @ v @ drop (a + n) x)
         else if length v = 1 then Inr (take a x @ replicate n (v ! 0) @ drop (a + n) x)
         else Inl ValueError)"

text \<open>
  The bodies of the two constraint lambdas of lines 260 and 261 and of the two Jacobian
  functions. Each lambda is \<open>lambda x: ...\<close> with \<open>j\<close> free: \<open>j\<close> is the variable of the
  enclosing \<open>numerical_solver\<close>, read when the lambda is called. The models take that
  value as their first argument. The first lambda multiplies a slice by itself, which
  cannot fail; the second multiplies two slices, which have different lengths when \<open>x\<close>
  is too short.
\<close>

definition rr_fun :: "nat \<Rightarrow> vec \<Rightarrow> npfloat" where
  "rr_fun j x =
     fl_sub (fl_sum (map2 fl_mul (slice x (8 * j + 4) (8 * j + 8)) (slice x (8 * j + 4) (8 * j + 8))))
       (Fin 1)"

definition rs_fun :: "nat \<Rightarrow> vec \<Rightarrow> error + npfloat" where
  "rs_fun j x =
     (case broadcast_mul (slice x (8 * j + 4) (8 * j + 8)) (slice x (8 * j) (8 * j + 4)) of
        Inl e \<Rightarrow> Inl e
      | Inr p \<Rightarrow> Inr (fl_sum p))"

text \<open>\<open>np.zeros(8*(M+N-1))\<close> raises \<open>ValueError\<close> for a negative size.\<close>

definition rr_constraint_jacobian :: "vec \<Rightarrow> nat \<Rightarrow> nat \<Rightarrow> nat \<Rightarrow> error + vec" where
  "rr_constraint_jacobian x j N M =
     (if M + N = 0 then Inl ValueError
      else assign_slice (replicate (8 * (M + N - 1)) (Fin 0)) (8 * j + 4) (8 * j + 8)
             (map (fl_mul (Fin 2)) (slice x (8 * j + 4) (8 * j + 8))))"

definition rs_constraint_jacobian :: "vec \<Rightarrow> nat \<Rightarrow> nat \<Rightarrow> nat \<Rightarrow> error + vec" where
  "rs_constraint_jacobian x j N M =
     (if M + N = 0 then Inl ValueError
      else
     (case assign_slice (replicate (8 * (M + N - 1)) (Fin 0)) (8 * j) (8 * j + 4)
             (slice x (8 * j + 4) (8 * j + 8)) of
        Inl e \<Rightarrow> Inl e
      | Inr jac \<Rightarrow> assign_slice jac (8 * j + 4) (8 * j + 8) (slice x (8 * j) (8 * j + 4))))"

text \<open>
  A constraint dictionary: its \<open>"type"\<close>, and the lambdas under \<open>"fun"\<close> and \<open>"jac"\<close> as
  functions of the value of \<open>j\<close> at the time of the call.
\<close>

record constraint =
  con_type :: string
  con_fun :: "nat \<Rightarrow> vec \<Rightarrow> error + npfloat"
  con_jac :: "nat \<Rightarrow> vec \<Rightarrow> error + vec"

text \<open>
  The local variables of \<open>numerical_solver\<close> that the two loops of lines 259 to 271
  assign: the loop variable \<open>j\<close> (unbound before the first iteration), the array \<open>cons\<close>
  made by \<open>np.empty\<close> (\<open>None\<close> is a slot not yet assigned) and the list \<open>bounds\<close>.
\<close>

record frame =
  var_j :: "nat option"
  var_cons :: "constraint option list"
  var_bounds :: "(real option \<times> real option) list"

definition cons_loop_body :: "nat \<Rightarrow> nat \<Rightarrow> nat \<Rightarrow> frame \<Rightarrow> frame" where
  "cons_loop_body N M j f =
     f\<lparr>var_j := Some j,
       var_cons := (var_cons f)
         [2 * j := Some \<lparr>con_type = ''eq'', con_fun = (\<lambda>j' x. Inr (rr_fun j' x)),
                          con_jac = (\<lambda>j' x. rr_constraint_jacobian x j' N M)\<rparr>,
          2 * j + 1 := Some \<lparr>con_type = ''eq'', con_fun = rs_fun,
                              con_jac = (\<lambda>j' x. rs_constraint_jacobian x j' N M)\<rparr>]\<rparr>"

definition bounds_loop_body :: "nat \<Rightarrow> frame \<Rightarrow> frame" where
  "bounds_loop_body j f =
     f\<lparr>var_j := Some j,
       var_bounds := var_bounds f @ replicate 4 (None, None) @ replicate 4 (Some (- 1), Some 1)\<rparr>"

definition build_frame :: "nat \<Rightarrow> nat \<Rightarrow> frame" where
  "build_frame N M =
     fold bounds_loop_body [0..<M + N - 1]
       (fold (cons_loop_body N M) [0..<M + N - 1]
          \<lparr>var_j = None, var_cons = replicate (2 * (N + M - 1)) None, var_bounds = []\<rparr>)"

text \<open>
  What the optimizer receives for one constraint: callables that read \<open>j\<close> from the
  frame as it stands when \<open>scipy.optimize.minimize\<close> runs, after both loops.
\<close>

record callable_constraint =
  call_type :: string
  call_fun :: "vec \<Rightarrow> error + npfloat"
  call_jac :: "vec \<Rightarrow> error + vec"

definition close_over :: "frame \<Rightarrow> constraint \<Rightarrow> callable_constraint" where
  "close_over f c =
     \<lparr>call_type = con_type c,
      call_fun = (\<lambda>x. case var_j f of None \<Rightarrow> Inl NameError | Some j \<Rightarrow> con_fun c j x),
      call_jac = (\<lambda>x. case var_j f of None \<Rightarrow> Inl NameError | Some j \<Rightarrow> con_jac c j x)\<rparr>"

text \<open>
  \<open>scipy.optimize.minimize\<close> is a parameter of the model: given the objective (which
  threads \<open>self.squared_distances\<close>), the flattened start, the constraints and the
  bounds, it returns the final buffer and either an exception or \<open>opt.x\<close>.
\<close>

type_synonym minimize_fun =
  "(vec \<Rightarrow> mat \<Rightarrow> mat \<times> (error + npfloat)) \<Rightarrow> vec \<Rightarrow> callable_constraint list \<Rightarrow>
     (real option \<times> real option) list \<Rightarrow> mat \<Rightarrow> mat \<times> (error + vec)"

text \<open>
  \<open>numerical_solver(match)\<close>. \<open>np.empty(2*(N+M-1))\<close> raises for a negative size. After
  the optimizer returns, line 275 looks up \<open>self.update_quaternions\<close>.
\<close>

definition numerical_solver :: "minimize_fun \<Rightarrow> rotation \<Rightarrow> mat \<Rightarrow> rotation \<times> (error + mat)" where
  "numerical_solver minimize self match =
     (let N = num_reactants (self_M self); M = num_products (self_M self)
      in if N + M = 0 then (self, Inl ValueError)
         else
     (let f = build_frame N M
      in case those (var_cons f) of None \<Rightarrow> (self, Inl TypeError) | Some cons \<Rightarrow>
     (case minimize (objective self match) (flatten_q (self_q self)) (map (close_over f) cons)
             (var_bounds f) (self_squared_distances self) of
        (d', Inl e) \<Rightarrow> (self\<lparr>self_squared_distances := d'\<rparr>, Inl e)
      | (d', Inr x) \<Rightarrow>
          (let self' = self\<lparr>self_squared_distances := d'\<rparr>
           in case getattr self' ''update_quaternions'' of
                Inl e \<Rightarrow> (self', Inl e)
              | Inr (Method name) \<Rightarrow>
                  (case reshape_q (N + M - 1) x of Inl e \<Rightarrow> (self', Inl e)
                   | Inr q' \<Rightarrow>
                       if name = ''update_quarternions''
                       then (update_quarternions self' q', Inr (self_squared_distances self'))
                       else (self', Inl TypeError))
              | Inr _ \<Rightarrow> (self', Inl TypeError)))))"

text \<open>
  \<open>self.score(match)\<close>: \<open>self.score\<close> is the bound method that \<open>set_solver\<close> returned in
  \<open>__init__\<close>.
\<close>

definition score_call ::
  "eigh_fun \<Rightarrow> minimize_fun \<Rightarrow> rotation \<Rightarrow> mat \<Rightarrow> rotation \<times> (error + mat)" where
  "score_call eigh minimize self match =
     (case self_score self of
        Analytical_solver \<Rightarrow> analytical_solver eigh self match
      | Numerical_solver \<Rightarrow> numerical_solver minimize self match)"

section \<open>Notions used to state the properties\<close>

text \<open>Real matrices as lists of rows: product, the determinant of a \<open>3\<times>3\<close> matrix, identity.\<close>

definition real_mm :: "real list list \<Rightarrow> real list list \<Rightarrow> real list list" where
  "real_mm a b = map (\<lambda>row. map (\<lambda>col. sum_list (map2 (*) row col)) (transpose b)) a"

fun det3 :: "real list list \<Rightarrow> real" where
  "det3 [[a, b, c], [d, e, f], [g, h, i]] =
     a * (e * i - f * h) - b * (d * i - f * g) + c * (d * h - e * g)"
| "det3 _ = 0"

definition identity3 :: "real list list" where
  "identity3 = [[1, 0, 0], [0, 1, 0], [0, 0, 1]]"

text \<open>
  The entries that \<open>transform\<close> computes for the rotation block of the quaternion
  \<open>(a, b, c, d)\<close>, written out (lemma \<open>transform_closed_form\<close> below).
\<close>

definition rot_closed_form :: "real \<Rightarrow> real \<Rightarrow> real \<Rightarrow> real \<Rightarrow> real list list" where
  "rot_closed_form a b c d =
    [[d * d - c * c - b * b + a * a, 2 * (a * b) - 2 * (c * d), 2 * (a * c) + 2 * (b * d)],
     [2 * (a * b) + 2 * (c * d), d * d - c * c - a * a + b * b, 2 * (b * c) - 2 * (a * d)],
     [2 * (a * c) - 2 * (b * d), 2 * (b * c) + 2 * (a * d), - (b * b) - a * a + d * d + c * c]]"

text \<open>
  The place of component \<open>i\<close> of \<open>s\<^sub>k\<close> and of \<open>r\<^sub>k\<close> in the flat parameter vector:
  \<open>q[k, 0]\<close> is \<open>s\<^sub>k\<close> and \<open>q[k, 1]\<close> is \<open>r\<^sub>k\<close> (lemma \<open>reshape_q_slots\<close> below).
\<close>

definition s_slot :: "nat \<Rightarrow> nat \<Rightarrow> nat" where
  "s_slot k i = 8 * k + i"

definition r_slot :: "nat \<Rightarrow> nat \<Rightarrow> nat" where
  "r_slot k i = 8 * k + 4 + i"

text \<open>The eight bounds that one iteration of the loop of line 269 appends.\<close>

definition bounds_block :: "(real option \<times> real option) list" where
  "bounds_block = replicate 4 (None, None) @ replicate 4 (Some (- 1), Some 1)"

text \<open>A box bound is finite when both ends are given.\<close>

definition is_bounded :: "real option \<times> real option \<Rightarrow> bool" where
  "is_bounded b \<longleftrightarrow> fst b \<noteq> None \<and> snd b \<noteq> None"

text \<open>The attributes of \<open>self\<close> other than the distance buffer.\<close>

definition fixed_part ::
  "rotation \<Rightarrow> ordering \<times> coord list \<times> coord list \<times> solver \<times> vec list list \<times> mat list \<times>
     mat list \<times> mat list list \<times> mat list list" where
  "fixed_part self =
     (self_M self, self_X self, self_Y self, self_score self, self_q self, self_W self,
      self_Q self, self_Qt_dot_W self, self_W_minus_Q self)"

section \<open>Example problems\<close>

text \<open>One reactant atom and one product atom, each its own group.\<close>

definition example_single :: "npfloat \<Rightarrow> ordering" where
  "example_single w =
     \<lparr>products_coordinates = [(Fin 1, Fin 0, Fin 0)],
      reactants_coordinates = [(Fin 0, Fin 2, Fin 0)],
      num_reactants = 1, num_products = 1,
      reactant_subset_indices = [[0]], product_subset_indices = [[0]],
      match_matrix = [[w]]\<rparr>"

text \<open>Two reactant groups and two product groups of one atom each.\<close>

definition example_multi :: ordering where
  "example_multi =
     \<lparr>products_coordinates = [(Fin 1, Fin 0, Fin 0), (Fin 0, Fin 1, Fin 0)],
      reactants_coordinates = [(Fin 0, Fin 2, Fin 0), (Fin 0, Fin 0, Fin 3)],
      num_reactants = 2, num_products = 2,
      reactant_subset_indices = [[0], [1]], product_subset_indices = [[0], [1]],
      match_matrix = [[Fin 1, Fin 0], [Fin 0, Fin 1]]\<rparr>"

text \<open>An optimizer that evaluates the objective once at the start and returns the start.\<close>

definition example_minimize :: minimize_fun where
  "example_minimize obj x0 cons bnds d =
     (case obj x0 d of (d', Inl e) \<Rightarrow> (d', Inl e) | (d', Inr _) \<Rightarrow> (d', Inr x0))"

text \<open>An optimizer that returns the start without calling anything.\<close>

definition idle_minimize :: minimize_fun where
  "idle_minimize obj x0 cons bnds d = (d, Inr x0)"

text \<open>
  A parameter vector for three transforms: \<open>r\<^sub>0\<close> is the zero quaternion, \<open>r\<^sub>1\<close> and
  \<open>r\<^sub>2\<close> are \<open>(0, 0, 0, 1)\<close>, every \<open>s\<^sub>k\<close> is zero.
\<close>

definition example_x :: vec where
  "example_x =
     flatten_q
       [[[Fin 0, Fin 0, Fin 0, Fin 0], [Fin 0, Fin 0, Fin 0, Fin 0]],
        [[Fin 0, Fin 0, Fin 0, Fin 0], [Fin 0, Fin 0, Fin 0, Fin 1]],
        [[Fin 0, Fin 0, Fin 0, Fin 0], [Fin 0, Fin 0, Fin 0, Fin 1]]]"

text \<open>The two dictionaries that one iteration of the loop of line 259 stores.\<close>

definition rr_dict :: "nat \<Rightarrow> nat \<Rightarrow> constraint" where
  "rr_dict N M =
     \<lparr>con_type = ''eq'', con_fun = (\<lambda>j' x. Inr (rr_fun j' x)), con_jac = (\<lambda>j' x. rr_constraint_jacobian x j' N M)\<rparr>"

definition rs_dict :: "nat \<Rightarrow> nat \<Rightarrow> constraint" where
  "rs_dict N M =
     \<lparr>con_type = ''eq'', con_fun = rs_fun, con_jac = (\<lambda>j' x. rs_constraint_jacobian x j' N M)\<rparr>"

text \<open>The evaluation rules for the example problems.\<close>

named_theorems example_eval

text \<open>The scorer objects built by \<open>__init__\<close> for the two example problems.\<close>

definition example_single_self :: "npfloat \<Rightarrow> rotation" where
  "example_single_self w = projr (init (example_single w))"

definition example_multi_self :: rotation where
  "example_multi_self = projr (init example_multi)"

text \<open>
  Finite arrays: a vector or matrix without \<open>nan\<close> or infinities, a finite \<open>4\<times>4\<close>
  matrix, an array of such blocks, and finite coordinates.
\<close>

definition finite_vec :: "vec \<Rightarrow> bool" where
  "finite_vec v \<longleftrightarrow> list_all is_finite v"


definition fin44 :: "mat \<Rightarrow> bool" where
  "fin44 a \<longleftrightarrow> length a = 4 \<and> list_all (\<lambda>row. length row = 4 \<and> finite_vec row) a"

definition blocks_fin44 :: "mat list list \<Rightarrow> bool" where
  "blocks_fin44 t \<longleftrightarrow> list_all (list_all fin44) t"


text \<open>
  A \<open>4\<times>4\<close> array whatever its entries, and an array of such blocks: the shape of
  \<open>Qt_dot_W\<close> and \<open>W_minus_Q\<close>.
\<close>

definition shape44 :: "mat \<Rightarrow> bool" where
  "shape44 a \<longleftrightarrow> length a = 4 \<and> list_all (\<lambda>row. length row = 4) a"



text \<open>
  A finite value that is not negative and a matrix of such values (the match weights);
  a value that is not negative, which an infinity or \<open>nan\<close> can be; two arrays of the
  same shape.
\<close>

fun nonneg_finite :: "npfloat \<Rightarrow> bool" where
  "nonneg_finite (Fin v) = (0 \<le> v)"
| "nonneg_finite _ = False"

definition nonneg_mat :: "mat \<Rightarrow> bool" where
  "nonneg_mat a \<longleftrightarrow> list_all (list_all nonneg_finite) a"




text \<open>
  The squared distance between the atom at \<open>y\<close> and the atom at \<open>x\<close> moved by the
  rotation \<open>rot\<close> and the translation \<open>t\<close>, written out: component \<open>c\<close> of \<open>rot x\<close>, and
  the sum over the three components of the squares of \<open>y - t - rot x\<close>.
\<close>

definition rotated :: "mat \<Rightarrow> coord \<Rightarrow> nat \<Rightarrow> npfloat" where
  "rotated rot x c =
     (case x of (x1, x2, x3) \<Rightarrow>
        fl_add (fl_add (fl_add (Fin 0) (fl_mul (rot ! c ! 0) x1)) (fl_mul (rot ! c ! 1) x2))
          (fl_mul (rot ! c ! 2) x3))"










text \<open>
  A write of fixed values to fixed places of a row or of a matrix: the result keeps the
  shape, holds the given value at each place written and the old value elsewhere.
\<close>

definition is_row_override :: "(vec \<Rightarrow> vec) \<Rightarrow> bool" where
  "is_row_override G \<longleftrightarrow>
     (\<exists>m. \<forall>row. length (G row) = length row \<and>
        (\<forall>j<length row. G row ! j = (case m j of Some v \<Rightarrow> v | None \<Rightarrow> row ! j)))"

definition is_override :: "(mat \<Rightarrow> mat) \<Rightarrow> bool" where
  "is_override U \<longleftrightarrow>
     (\<exists>m. \<forall>d. map length (U d) = map length d \<and>
        (\<forall>i<length d. \<forall>j<length (d ! i).
           U d ! i ! j = (case m i j of Some v \<Rightarrow> v | None \<Rightarrow> d ! i ! j)))"

section \<open>Quaternion algebra\<close>

lemma overflow_threshold_large: "4 < overflow_threshold"
proof -
  have "(2::real) ^ 970 * 1 \<le> 2 ^ 970 * (2 ^ 54 - 1)"
    by (intro mult_left_mono) simp_all
  moreover have "(2::real) ^ 1024 - 2 ^ 970 = 2 ^ 970 * (2 ^ 54 - 1)"
    by (simp add: algebra_simps flip: power_add)
  moreover have "(2::real) ^ 2 < 2 ^ 970"
    by (rule power_strict_increasing) simp_all
  ultimately show ?thesis by (simp add: overflow_threshold_def)
qed

lemma to_float_small: "\<bar>x\<bar> \<le> 4 \<Longrightarrow> to_float x = Fin x"
  using overflow_threshold_large by (simp add: to_float_def)

lemma to_float_zero [simp]: "to_float 0 = Fin 0"
  by (simp add: to_float_small)

lemma overflow_threshold_moderate: "1000000 < overflow_threshold"
proof -
  have "(2::real) ^ 970 * 1 \<le> 2 ^ 970 * (2 ^ 54 - 1)"
    by (intro mult_left_mono) simp_all
  moreover have "(2::real) ^ 1024 - 2 ^ 970 = 2 ^ 970 * (2 ^ 54 - 1)"
    by (simp add: algebra_simps flip: power_add)
  moreover have "(2::real) ^ 20 < 2 ^ 970"
    by (rule power_strict_increasing) simp_all
  ultimately show ?thesis by (simp add: overflow_threshold_def)
qed

lemma to_float_moderate: "\<bar>x\<bar> \<le> 1000000 \<Longrightarrow> to_float x = Fin x"
  using overflow_threshold_moderate by (simp add: to_float_def)

lemma dot_vv4_exact:
  assumes "\<bar>x1\<bar> \<le> 1" "\<bar>x2\<bar> \<le> 1" "\<bar>x3\<bar> \<le> 1" "\<bar>x4\<bar> \<le> 1"
    "\<bar>y1\<bar> \<le> 1" "\<bar>y2\<bar> \<le> 1" "\<bar>y3\<bar> \<le> 1" "\<bar>y4\<bar> \<le> 1"
  shows "dot_vv [Fin x1, Fin x2, Fin x3, Fin x4] [Fin y1, Fin y2, Fin y3, Fin y4] =
           Fin (x1 * y1 + x2 * y2 + x3 * y3 + x4 * y4)"
proof -
  have p: "\<bar>x1 * y1\<bar> \<le> 1" "\<bar>x2 * y2\<bar> \<le> 1" "\<bar>x3 * y3\<bar> \<le> 1" "\<bar>x4 * y4\<bar> \<le> 1"
    using assms by (simp_all add: abs_mult mult_le_one)
  then have q: "\<bar>x1 * y1\<bar> \<le> 4" "\<bar>x2 * y2\<bar> \<le> 4" "\<bar>x3 * y3\<bar> \<le> 4" "\<bar>x4 * y4\<bar> \<le> 4"
    "\<bar>x1 * y1 + x2 * y2\<bar> \<le> 4" "\<bar>x1 * y1 + x2 * y2 + x3 * y3\<bar> \<le> 4"
    "\<bar>x1 * y1 + x2 * y2 + x3 * y3 + x4 * y4\<bar> \<le> 4"
    by linarith+
  show ?thesis
    by (simp add: dot_vv_def fl_sum_def to_float_small q)
qed

lemma transform_closed_form:
  assumes "a * a + b * b + c * c + d * d = 1"
  shows "transform [Fin a, Fin b, Fin c, Fin d] [s1, s2, s3, s4] =
     Inr (map (map Fin) (rot_closed_form a b c d),
          take 3 (dot_mv (transpose (makeW (Fin a) (Fin b) (Fin c) (Fin d))) [s1, s2, s3, s4]))"
proof -
  have sq: "x * x \<le> 1 \<Longrightarrow> \<bar>x\<bar> \<le> 1" for x :: real
    using abs_square_le_1[of x] by (simp add: power2_eq_square)
  have "a * a \<le> 1" "b * b \<le> 1" "c * c \<le> 1" "d * d \<le> 1"
    using assms zero_le_square[of a] zero_le_square[of b] zero_le_square[of c] zero_le_square[of d]
    by linarith+
  then have bnd: "\<bar>a\<bar> \<le> 1" "\<bar>b\<bar> \<le> 1" "\<bar>c\<bar> \<le> 1" "\<bar>d\<bar> \<le> 1"
    by (simp_all add: sq)
  show ?thesis
    by (simp add: transform_def makeW_def makeQ_def dot_mm_def dot_vv4_exact bnd
        rot_closed_form_def)
qed

lemma rot_closed_form_gram:
  "real_mm (transpose (rot_closed_form a b c d)) (rot_closed_form a b c d) =
     (let n = (a * a + b * b + c * c + d * d)\<^sup>2 in [[n, 0, 0], [0, n, 0], [0, 0, n]])"
  apply (simp add: real_mm_def rot_closed_form_def Let_def)
  apply (intro conjI)
          apply algebra+
  done

lemma rot_closed_form_gram':
  "real_mm (rot_closed_form a b c d) (transpose (rot_closed_form a b c d)) =
     (let n = (a * a + b * b + c * c + d * d)\<^sup>2 in [[n, 0, 0], [0, n, 0], [0, 0, n]])"
  apply (simp add: real_mm_def rot_closed_form_def Let_def)
  apply (intro conjI)
          apply algebra+
  done

lemma rot_closed_form_det:
  "det3 (rot_closed_form a b c d) = (a * a + b * b + c * c + d * d) ^ 3"
  apply (simp add: rot_closed_form_def)
  apply algebra
  done

text \<open>
  C4. For a quaternion \<open>r = (a, b, c, d)\<close> of unit norm, \<open>transform(r, s)\<close> returns, as
  the top-left \<open>3\<times>3\<close> block of \<open>makeW(r).T.dot(makeQ(r))\<close>, a proper rotation matrix:
  its transpose is its inverse on both sides and its determinant is \<open>+1\<close>.
\<close>

theorem transform_unit_quaternion_proper_rotation:
  assumes "a * a + b * b + c * c + d * d = 1"
  shows "\<exists>R t. transform [Fin a, Fin b, Fin c, Fin d] [s1, s2, s3, s4] = Inr (map (map Fin) R, t)
           \<and> real_mm (transpose R) R = identity3
           \<and> real_mm R (transpose R) = identity3
           \<and> det3 R = 1"
proof -
  let ?R = "rot_closed_form a b c d"
  have "real_mm (transpose ?R) ?R = identity3"
    by (simp only: rot_closed_form_gram assms Let_def identity3_def) simp
  moreover have "real_mm ?R (transpose ?R) = identity3"
    by (simp only: rot_closed_form_gram' assms Let_def identity3_def) simp
  moreover have "det3 ?R = 1"
    by (simp only: rot_closed_form_det assms) simp
  ultimately show ?thesis
    using transform_closed_form[OF assms] by blast
qed

theorem transform_unit_quaternion_proper_rotation_witness:
  "(0::real) * 0 + 0 * 0 + 0 * 0 + 1 * 1 = 1 \<and>
   (\<exists>R t. transform [Fin 0, Fin 0, Fin 0, Fin 1] [Fin 0, Fin 0, Fin 0, Fin 0] = Inr (map (map Fin) R, t)
           \<and> real_mm (transpose R) R = identity3
           \<and> real_mm R (transpose R) = identity3
           \<and> det3 R = 1)"
  using transform_unit_quaternion_proper_rotation [of 0 0 0 1 "Fin 0" "Fin 0" "Fin 0" "Fin 0"]
  by simp

section \<open>The bounds and the constraints of the numerical solver\<close>

lemma concat_replicate_nth:
  "k < n \<Longrightarrow> i < length blk \<Longrightarrow> concat (replicate n blk) ! (length blk * k + i) = blk ! i"
proof (induction k arbitrary: n)
  case 0
  then obtain n' where "n = Suc n'" by (cases n) auto
  with 0 show ?case by (simp add: nth_append)
next
  case (Suc k)
  then obtain n' where n: "n = Suc n'" by (cases n) auto
  with Suc.prems have "k < n'" by simp
  from Suc.IH[OF this Suc.prems(2)] show ?case
    by (simp add: n nth_append add.assoc)
qed

lemma concat_replicate_snoc:
  "concat (replicate (Suc n) blk) = concat (replicate n blk) @ blk"
  by (induction n) simp_all

lemma fold_bounds_loop:
  "fold bounds_loop_body [0..<n] f =
     f\<lparr>var_j := (if n = 0 then var_j f else Some (n - 1)),
       var_bounds := var_bounds f @ concat (replicate n bounds_block)\<rparr>"
proof (induction n)
  case 0
  show ?case by simp
next
  case (Suc n)
  have "fold bounds_loop_body [0..<Suc n] f = bounds_loop_body n (fold bounds_loop_body [0..<n] f)"
    by simp
  also have "\<dots> = bounds_loop_body n
      (f\<lparr>var_j := (if n = 0 then var_j f else Some (n - 1)),
         var_bounds := var_bounds f @ concat (replicate n bounds_block)\<rparr>)"
    by (simp only: Suc)
  also have "\<dots> = f\<lparr>var_j := (if Suc n = 0 then var_j f else Some (Suc n - 1)),
       var_bounds := var_bounds f @ concat (replicate (Suc n) bounds_block)\<rparr>"
    unfolding concat_replicate_snoc by (simp add: bounds_loop_body_def bounds_block_def)
  finally show ?case .
qed

lemma fold_cons_loop_bounds:
  "var_bounds (fold (cons_loop_body N M) js f) = var_bounds f"
  by (induction js arbitrary: f) (simp_all add: cons_loop_body_def)

lemma fold_bounds_loop_cons:
  "var_cons (fold bounds_loop_body js f) = var_cons f"
  by (induction js arbitrary: f) (simp_all add: bounds_loop_body_def)

lemma build_frame_bounds:
  "var_bounds (build_frame N M) = concat (replicate (M + N - 1) bounds_block)"
  by (simp add: build_frame_def fold_bounds_loop fold_cons_loop_bounds)

lemma build_frame_j:
  "var_j (build_frame N M) = (if M + N - 1 = 0 then None else Some (M + N - 2))"
  by (auto simp add: build_frame_def fold_bounds_loop numeral_2_eq_2)

text \<open>
  The layout of the parameter vector, as \<open>objective\<close> reads it back: the first four
  entries of transform \<open>k\<close> are \<open>q[k, 0] = s\<^sub>k\<close> and the last four are \<open>q[k, 1] = r\<^sub>k\<close>.
\<close>

lemma reshape_q_slots:
  assumes "reshape_q n x = Inr q'" "k < n" "i < 4"
  shows "q' ! k ! 0 ! i = x ! s_slot k i \<and> q' ! k ! 1 ! i = x ! r_slot k i"
proof -
  from assms(1) have len: "length x = 8 * n"
    and q': "q' = map (\<lambda>k. [take 4 (drop (8 * k) x), take 4 (drop (8 * k + 4) x)]) [0..<n]"
    by (auto simp: reshape_q_def split: if_splits)
  from assms(2,3) len have "8 * k + i < length x" "8 * k + 4 + i < length x" by auto
  with assms(2,3) show ?thesis
    by (simp add: q' s_slot_def r_slot_def add.assoc)
qed

text \<open>
  C5, as stated, fails: for two groups on each side the bound of the first component of
  \<open>s\<^sub>0\<close> is \<open>(None, None)\<close>, not a finite range, and the bound of the first component of
  \<open>r\<^sub>0\<close> is finite.
\<close>

theorem bounds_dual_bounded_counterexample:
  "\<not> is_bounded (var_bounds (build_frame 2 2) ! s_slot 0 0) \<and>
   is_bounded (var_bounds (build_frame 2 2) ! r_slot 0 0)"
  by (simp add: build_frame_bounds bounds_block_def s_slot_def r_slot_def is_bounded_def
      eval_nat_numeral)

text \<open>
  C5, amended. The list of bounds has one entry per parameter; for every transform \<open>k\<close>
  the four components of the dual part \<open>s\<^sub>k\<close> are unbounded, \<open>(None, None)\<close>, and the four
  components of the rotation part \<open>r\<^sub>k\<close> are bounded to \<open>(-1, 1)\<close>.
\<close>

theorem bounds_rotation_bounded_dual_free:
  "length (var_bounds (build_frame N M)) = 8 * (N + M - 1) \<and>
   (\<forall>k<N + M - 1. \<forall>i<4.
      var_bounds (build_frame N M) ! s_slot k i = (None, None) \<and>
      var_bounds (build_frame N M) ! r_slot k i = (Some (- 1), Some 1))"
proof -
  have len: "length bounds_block = 8" by (simp add: bounds_block_def)
  have s: "bounds_block ! i = (None, None)" if "i < 4" for i
    using that by (simp add: bounds_block_def nth_append)
  have r: "bounds_block ! (4 + i) = (Some (- 1), Some 1)" if "i < 4" for i
    using that by (simp add: bounds_block_def nth_append)
  have "var_bounds (build_frame N M) ! s_slot k i = (None, None)"
    if "k < N + M - 1" "i < 4" for k i
    using concat_replicate_nth[of k "M + N - 1" i bounds_block] that s[of i]
    by (simp add: build_frame_bounds len s_slot_def add.commute)
  moreover have "var_bounds (build_frame N M) ! r_slot k i = (Some (- 1), Some 1)"
    if "k < N + M - 1" "i < 4" for k i
    using concat_replicate_nth[of k "M + N - 1" "4 + i" bounds_block] that r[of i]
    by (simp add: build_frame_bounds len r_slot_def add.commute add.assoc)
  moreover have "length (var_bounds (build_frame N M)) = 8 * (N + M - 1)"
    by (simp add: build_frame_bounds length_concat len sum_list_replicate add.commute)
  ultimately show ?thesis by blast
qed

theorem bounds_rotation_bounded_dual_free_witness:
  "length (var_bounds (build_frame 2 2)) = 24 \<and>
   var_bounds (build_frame 2 2) ! s_slot 2 3 = (None, None) \<and>
   var_bounds (build_frame 2 2) ! r_slot 2 3 = (Some (- 1), Some 1)"
  using bounds_rotation_bounded_dual_free [of 2 2, THEN conjunct1]
    bounds_rotation_bounded_dual_free [of 2 2, THEN conjunct2, rule_format, of 2 3]
  by simp

lemma fold_cons_loop:
  "n \<le> m \<Longrightarrow>
   fold (cons_loop_body N M) [0..<n]
     \<lparr>var_j = None, var_cons = replicate (2 * m) None, var_bounds = []\<rparr> =
   \<lparr>var_j = (if n = 0 then None else Some (n - 1)),
    var_cons = concat (replicate n [Some (rr_dict N M), Some (rs_dict N M)]) @
               replicate (2 * (m - n)) None,
    var_bounds = []\<rparr>"
proof (induction n)
  case 0
  show ?case by simp
next
  case (Suc n)
  let ?pre = "concat (replicate n [Some (rr_dict N M), Some (rs_dict N M)])"
  let ?f0 = "\<lparr>var_j = None, var_cons = replicate (2 * m) None, var_bounds = []\<rparr>"
  from Suc.prems obtain r where r: "m - n = Suc r" and r': "m - Suc n = r"
    by (cases "m - n") auto
  have lpre: "length ?pre = 2 * n"
    by (simp add: length_concat sum_list_replicate)
  have "fold (cons_loop_body N M) [0..<Suc n] ?f0 =
        cons_loop_body N M n (fold (cons_loop_body N M) [0..<n] ?f0)"
    by simp
  also have "\<dots> = cons_loop_body N M n
      \<lparr>var_j = (if n = 0 then None else Some (n - 1)),
       var_cons = ?pre @ replicate (2 * (m - n)) None, var_bounds = []\<rparr>"
    using Suc by simp
  also have "\<dots> =
      \<lparr>var_j = Some n,
       var_cons = (?pre @ [Some (rr_dict N M), Some (rs_dict N M)]) @ replicate (2 * r) None,
       var_bounds = []\<rparr>"
    using lpre
    by (simp add: cons_loop_body_def r list_update_append rr_dict_def rs_dict_def)
  finally show ?case
    by (simp add: r' concat_replicate_snoc del: replicate.simps replicate_Suc)
qed

lemma those_concat_replicate:
  "those (concat (replicate n [Some a, Some b])) = Some (concat (replicate n [a, b]))"
  by (induction n) simp_all

lemma build_frame_cons:
  "those (var_cons (build_frame N M)) = Some (concat (replicate (N + M - 1) [rr_dict N M, rs_dict N M]))"
  using fold_cons_loop[of "N + M - 1" "N + M - 1" N M]
  by (simp add: build_frame_def fold_bounds_loop_cons add.commute those_concat_replicate)

text \<open>
  Every constraint callable that the optimizer receives reads \<open>j\<close> after both loops have
  run, when it is \<open>N+M-2\<close>: the pair at positions \<open>2k\<close> and \<open>2k+1\<close> evaluates transform
  \<open>N+M-2\<close> whatever \<open>k\<close> is.
\<close>

lemma constraints_read_final_j:
  assumes "k < N + M - 1"
  shows "\<exists>cons. those (var_cons (build_frame N M)) = Some cons \<and> length cons = 2 * (N + M - 1)
           \<and> call_fun (close_over (build_frame N M) (cons ! (2 * k))) x = Inr (rr_fun (N + M - 2) x)
           \<and> call_fun (close_over (build_frame N M) (cons ! (2 * k + 1))) x = rs_fun (N + M - 2) x"
proof -
  let ?cons = "concat (replicate (N + M - 1) [rr_dict N M, rs_dict N M])"
  have a: "?cons ! (2 * k) = rr_dict N M"
    using concat_replicate_nth[of k "N + M - 1" 0 "[rr_dict N M, rs_dict N M]"] assms
    by (simp add: mult_2)
  have b: "?cons ! (2 * k + 1) = rs_dict N M"
    using concat_replicate_nth[of k "N + M - 1" 1 "[rr_dict N M, rs_dict N M]"] assms
    by (simp add: mult_2)
  have j: "var_j (build_frame N M) = Some (N + M - 2)"
    using assms by (simp add: build_frame_j add.commute)
  have len: "length ?cons = 2 * (N + M - 1)"
    by (simp add: length_concat sum_list_replicate)
  have c0: "call_fun (close_over (build_frame N M) (rr_dict N M)) x = Inr (rr_fun (N + M - 2) x)"
    by (simp add: close_over_def j rr_dict_def)
  have c1: "call_fun (close_over (build_frame N M) (rs_dict N M)) x = rs_fun (N + M - 2) x"
    by (simp add: close_over_def j rs_dict_def)
  show ?thesis
    apply (rule exI[of _ ?cons])
    unfolding a b
    by (simp only: build_frame_cons len c0 c1)
qed

text \<open>
  C2 at a concrete input. With two groups on each side there are six constraints. At
  \<open>example_x\<close> the rotation quaternion of transform \<open>0\<close> is zero, so its squared norm
  minus one is \<open>-1\<close>; the callable at position \<open>0\<close> nevertheless evaluates to \<open>0\<close>,
  the value for transform \<open>2\<close>.
\<close>

theorem constraint_zero_reads_last_transform:
  "\<exists>cons. those (var_cons (build_frame 2 2)) = Some cons \<and> length cons = 6
     \<and> call_fun (close_over (build_frame 2 2) (cons ! 0)) example_x = Inr (Fin 0)
     \<and> rr_fun 0 example_x = Fin (- 1)
     \<and> rr_fun 2 example_x = Fin 0"
proof -
  have "rr_fun 0 example_x = Fin (- 1)" "rr_fun 2 example_x = Fin 0"
    by (simp_all add: rr_fun_def example_x_def flatten_q_def slice_def fl_sum_def fl_sub_def
        to_float_moderate)
  then show ?thesis
    using constraints_read_final_j[of 0 2 2 example_x] by auto
qed

section \<open>Construction and dispatch\<close>

lemma init_Inr:
  assumes "0 < num_reactants m + num_products m"
  shows "\<exists>self. init m = Inr self \<and> self_M self = m \<and> self_score self = set_solver m
           \<and> self_X self = products_coordinates m \<and> self_Y self = reactants_coordinates m
           \<and> self_q self = replicate (num_reactants m + num_products m - 1)
                 [[Fin 0, Fin 0, Fin 0, Fin 0], [Fin 0, Fin 0, Fin 0, Fin 1]]
           \<and> self_squared_distances self = zeros_like (match_matrix m)
           \<and> self_Qt_dot_W self = fst (snd (snd (interaction_arrays (products_coordinates m) (reactants_coordinates m))))
           \<and> self_W_minus_Q self = snd (snd (snd (interaction_arrays (products_coordinates m) (reactants_coordinates m))))"
  using assms
  by (simp add: init_def initialize_quaternions_def Let_def numeral_eq_Suc split: prod.splits)

lemma init_fails:
  "num_reactants m + num_products m = 0 \<Longrightarrow> init m = Inl ValueError"
  by (simp add: init_def initialize_quaternions_def Let_def)

lemma init_positive:
  "init m = Inr self \<Longrightarrow> 0 < num_reactants m + num_products m"
  using init_fails[of m] by (cases "num_reactants m + num_products m = 0") auto

lemma analytical_block_fixed_part:
  "analytical_block eigh match rids pids s = Inr s' \<Longrightarrow> fixed_part s' = fixed_part s"
  unfolding analytical_block_def
  by (auto simp: fixed_part_def split: sum.splits if_splits)

lemma for_each_invariant:
  assumes "\<And>x s s'. x \<in> set xs \<Longrightarrow> P s \<Longrightarrow> body x s = Inr s' \<Longrightarrow> P s'" "P s"
  shows "P (fst (for_each body xs s))"
  using assms
proof (induction xs arbitrary: s)
  case Nil
  then show ?case by simp
next
  case (Cons x xs)
  show ?case
  proof (cases "body x s")
    case (Inl e)
    with Cons.prems(2) show ?thesis by simp
  next
    case (Inr s')
    with Cons.prems(1)[of x s s'] Cons.prems(2) have "P s'" by simp
    moreover have "\<And>y t t'. y \<in> set xs \<Longrightarrow> P t \<Longrightarrow> body y t = Inr t' \<Longrightarrow> P t'"
      using Cons.prems(1) by auto
    ultimately have "P (fst (for_each body xs s'))" by (rule Cons.IH[rotated])
    with Inr show ?thesis by simp
  qed
qed

lemma for_each_nested_invariant:
  assumes "\<And>x s. x \<in> set xs \<Longrightarrow> P s \<Longrightarrow> P (fst (body x s))" "P s"
  shows "P (fst (for_each_nested body xs s))"
  using assms
proof (induction xs arbitrary: s)
  case Nil
  then show ?case by simp
next
  case (Cons x xs)
  obtain s' r where b: "body x s = (s', r)" by (cases "body x s")
  with Cons.prems(1)[of x s] Cons.prems(2) have s': "P s'" by simp
  have step: "\<And>y t. y \<in> set xs \<Longrightarrow> P t \<Longrightarrow> P (fst (body y t))"
    using Cons.prems(1) by auto
  show ?case
  proof (cases r)
    case None
    from step s' have "P (fst (for_each_nested body xs s'))" by (rule Cons.IH)
    with b None show ?thesis by simp
  next
    case (Some e)
    with b s' show ?thesis by simp
  qed
qed

lemma analytical_solver_fixed_part:
  "fixed_part (fst (analytical_solver eigh s match)) = fixed_part s"
proof -
  let ?inner = "\<lambda>rids. for_each (\<lambda>pids. analytical_block eigh match rids pids) (product_subset_indices (self_M s))"
  have "fixed_part (fst (for_each_nested ?inner (reactant_subset_indices (self_M s)) s)) = fixed_part s"
  proof (rule for_each_nested_invariant[where P = "\<lambda>t. fixed_part t = fixed_part s"])
    fix rids t
    assume t: "fixed_part t = fixed_part s"
    show "fixed_part (fst (?inner rids t)) = fixed_part s"
      by (rule for_each_invariant[where P = "\<lambda>t. fixed_part t = fixed_part s"])
         (auto simp: t dest: analytical_block_fixed_part)
  qed simp
  then show ?thesis
    unfolding analytical_solver_def
    by (auto split: sum.splits prod.splits option.splits)
qed

lemma getattr_match_matrix:
  "getattr s ''match_matrix'' = Inl AttributeError"
  by (simp add: getattr_def method_names_def)

lemma getattr_update_quaternions:
  "getattr s ''update_quaternions'' = Inl AttributeError"
  by (simp add: getattr_def method_names_def)

lemma numerical_solver_raises:
  "\<exists>e. snd (numerical_solver minimize s match) = Inl e"
  unfolding numerical_solver_def Let_def
  by (auto simp: getattr_update_quaternions split: option.splits prod.splits sum.splits)

lemma numerical_solver_fixed_part:
  "fixed_part (fst (numerical_solver minimize s match)) = fixed_part s"
  unfolding numerical_solver_def Let_def
  by (auto simp: getattr_update_quaternions fixed_part_def split: option.splits prod.splits sum.splits)

lemma objective_raises:
  "\<exists>e. snd (objective s match x d) = Inl e"
  unfolding objective_def Let_def
  by (auto simp: getattr_match_matrix split: option.splits prod.splits sum.splits)

lemma remaining_reactant_step_raises:
  "\<exists>e. remaining_reactant_step s M' ta ra grp d = Inl e"
  unfolding remaining_reactant_step_def
  by (auto split: list.splits sum.splits)

lemma remaining_reactant_step_unpack:
  "length grp \<noteq> 2 \<Longrightarrow> remaining_reactant_step s M' ta ra grp d = Inl ValueError"
  unfolding remaining_reactant_step_def
  by (auto split: list.splits sum.splits)

lemma score_call_fixed_part:
  "fixed_part (fst (score_call eigh minimize s match)) = fixed_part s"
  by (simp add: score_call_def analytical_solver_fixed_part numerical_solver_fixed_part
      split: solver.splits)

text \<open>
  C9. The scorer built by \<open>__init__\<close> holds the analytical solver exactly when the
  reactant side or the product side has one rigid group, and the numerical solver
  otherwise; a call of \<open>self.score\<close> runs that solver, and no call changes the choice.
\<close>

theorem solver_dispatch_fixed_at_construction:
  assumes "init m = Inr self"
  shows "(self_score self = Analytical_solver \<longleftrightarrow> num_reactants m = 1 \<or> num_products m = 1)
       \<and> (self_score self = Numerical_solver \<longleftrightarrow> \<not> (num_reactants m = 1 \<or> num_products m = 1))
       \<and> score_call eigh minimize self match =
           (if num_reactants m = 1 \<or> num_products m = 1 then analytical_solver eigh self match
            else numerical_solver minimize self match)
       \<and> (\<forall>s mt. self_score (fst (score_call eigh minimize s mt)) = self_score s)"
proof -
  from init_Inr[OF init_positive[OF assms]] assms
  have sc: "self_score self = set_solver m" by auto
  have "self_score (fst (score_call eigh minimize s mt)) = self_score s" for s mt
    using score_call_fixed_part[of eigh minimize s mt] by (simp add: fixed_part_def)
  with sc show ?thesis
    by (auto simp: set_solver_def score_call_def)
qed

theorem solver_dispatch_fixed_at_construction_witness:
  "init (example_single (Fin 1)) = Inr (projr (init (example_single (Fin 1)))) \<and>
   self_score (projr (init (example_single (Fin 1)))) = Analytical_solver"
proof -
  have i: "init (example_single (Fin 1)) = Inr (projr (init (example_single (Fin 1))))"
    using init_Inr[of "example_single (Fin 1)"] by (auto simp: example_single_def)
  from solver_dispatch_fixed_at_construction[OF i] show ?thesis
    using i by (simp add: example_single_def)
qed

text \<open>
  C10. For \<open>N\<close> reactant groups and \<open>M\<close> product groups, not both zero, the constructor
  succeeds and the state \<open>q\<close> holds exactly \<open>N+M-1\<close> transforms, each with dual part
  \<open>s = (0,0,0,0)\<close> and rotation part \<open>r = (0,0,0,1)\<close>.
\<close>

theorem transforms_initialised_to_identity:
  assumes "0 < num_reactants m + num_products m"
  shows "\<exists>self. init m = Inr self
           \<and> int (length (self_q self)) = int (num_reactants m) + int (num_products m) - 1
           \<and> (\<forall>k<length (self_q self).
                self_q self ! k ! 0 = [Fin 0, Fin 0, Fin 0, Fin 0] \<and>
                self_q self ! k ! 1 = [Fin 0, Fin 0, Fin 0, Fin 1])"
proof -
  from init_Inr[OF assms] obtain self where
    "init m = Inr self"
    "self_q self = replicate (num_reactants m + num_products m - 1)
                 [[Fin 0, Fin 0, Fin 0, Fin 0], [Fin 0, Fin 0, Fin 0, Fin 1]]"
    by blast
  with assms show ?thesis
    by (auto simp: of_nat_diff)
qed

theorem transforms_initialised_to_identity_witness:
  "0 < num_reactants example_multi + num_products example_multi \<and>
   (\<exists>self. init example_multi = Inr self \<and> length (self_q self) = 3
      \<and> self_q self ! 2 ! 0 = [Fin 0, Fin 0, Fin 0, Fin 0]
      \<and> self_q self ! 2 ! 1 = [Fin 0, Fin 0, Fin 0, Fin 1])"
proof -
  have h: "0 < num_reactants example_multi + num_products example_multi"
    by (simp add: example_multi_def)
  from transforms_initialised_to_identity[OF h] obtain self where
    s: "init example_multi = Inr self"
      "int (length (self_q self)) = int (num_reactants example_multi) + int (num_products example_multi) - 1"
      "\<forall>k<length (self_q self).
          self_q self ! k ! 0 = [Fin 0, Fin 0, Fin 0, Fin 0] \<and>
          self_q self ! k ! 1 = [Fin 0, Fin 0, Fin 0, Fin 1]"
    by blast
  from s(2) have l: "length (self_q self) = 3" by (simp add: example_multi_def)
  with s(3) have "self_q self ! 2 ! 0 = [Fin 0, Fin 0, Fin 0, Fin 0]"
    "self_q self ! 2 ! 1 = [Fin 0, Fin 0, Fin 0, Fin 1]" by auto
  with h s(1) l show ?thesis by blast
qed

section \<open>The numerical solver never returns\<close>

text \<open>
  C3. When both sides have more than one rigid group, \<open>numerical_solver\<close> ends in an
  exception whatever the optimizer does, and the transform estimate \<open>q\<close> is unchanged.
  Every call of \<open>objective\<close> ends in an exception; every iteration of its loop over the
  remaining reactant groups raises, with \<open>ValueError\<close> for a group that does not have
  exactly two entries; \<open>self.match_matrix\<close> and \<open>self.update_quaternions\<close> are not
  attributes of the object.
\<close>

theorem numerical_solver_always_raises:
  assumes "1 < num_reactants (self_M self)" "1 < num_products (self_M self)"
  shows "(\<exists>e. snd (numerical_solver minimize self match) = Inl e)
       \<and> self_q (fst (numerical_solver minimize self match)) = self_q self
       \<and> (\<exists>e. snd (objective self match x d) = Inl e)
       \<and> (\<exists>e. remaining_reactant_step self M' ta ra grp d = Inl e)
       \<and> (length grp \<noteq> 2 \<longrightarrow> remaining_reactant_step self M' ta ra grp d = Inl ValueError)
       \<and> getattr self ''match_matrix'' = Inl AttributeError
       \<and> getattr self ''update_quaternions'' = Inl AttributeError"
proof -
  have "self_q (fst (numerical_solver minimize self match)) = self_q self"
    using numerical_solver_fixed_part[of minimize self match] by (simp add: fixed_part_def)
  then show ?thesis
    by (simp add: numerical_solver_raises objective_raises remaining_reactant_step_raises
        remaining_reactant_step_unpack getattr_match_matrix getattr_update_quaternions)
qed

lemmas [example_eval] =
  init_def example_multi_def example_single_def example_multi_self_def example_single_self_def
  initialize_quaternions_def interaction_arrays_def Let_def set_solver_def
  numerical_solver_def build_frame_cons example_minimize_def idle_minimize_def objective_def
  flatten_q_def reshape_q_def eval_nat_numeral getitem_def transform_def makeW_def makeQ_def
  dot_mm_def dot_mv_def dot_vv_def fl_sum_def take_idx_def product_step_def setitem_ix_def
  ix_ok_def zeros_like_def remaining_reactant_step_def squared_distance_block_def vec_of_def
  mat_sub_def fl_sub_def upt_conv_Cons enumerate_eq_zip score_call_def getattr_def
  method_names_def analytical_solver_def analytical_block_def block_distances_def
  getitem_ix_def make_C1_def
  make_C2_def make_C3_def make_A_def weighted_sum_def mat_scale_def mat_add_def mat_div_def
  zeros44_def allclose_def allclose_v_def inf_of_def last_column_def last_item_def
  dot_mv_checked_def to_float_moderate

theorem numerical_solver_always_raises_witness:
  "1 < num_reactants (self_M example_multi_self) \<and> 1 < num_products (self_M example_multi_self)
   \<and> snd (numerical_solver example_minimize example_multi_self (match_matrix example_multi)) =
       Inl ValueError
   \<and> snd (numerical_solver idle_minimize example_multi_self (match_matrix example_multi)) =
       Inl AttributeError"
proof -
  have h: "1 < num_reactants (self_M example_multi_self)" "1 < num_products (self_M example_multi_self)"
    by (simp_all add: example_eval)
  have "snd (numerical_solver example_minimize example_multi_self (match_matrix example_multi)) =
       Inl ValueError"
    by (simp add: example_eval)
  moreover have "snd (numerical_solver idle_minimize example_multi_self (match_matrix example_multi)) =
       Inl AttributeError"
    by (simp add: example_eval)
  ultimately show ?thesis
    using h numerical_solver_always_raises[OF h] by simp
qed

section \<open>Calling the scorer twice\<close>

text \<open>
  C6 at a concrete input. For the problem with two groups on each side, two calls of
  \<open>self.score\<close> in a row with the same match matrix both end in an exception and return
  no matrix: \<open>ValueError\<close> from the objective when the optimizer evaluates it,
  \<open>AttributeError\<close> from line 275 when the optimizer returns without evaluating it.
\<close>

theorem score_twice_multi_body_raises:
  "self_score example_multi_self = Numerical_solver
   \<and> snd (score_call eigh example_minimize example_multi_self (match_matrix example_multi)) =
       Inl ValueError
   \<and> snd (score_call eigh example_minimize
            (fst (score_call eigh example_minimize example_multi_self (match_matrix example_multi)))
            (match_matrix example_multi)) = Inl ValueError
   \<and> snd (score_call eigh idle_minimize example_multi_self (match_matrix example_multi)) =
       Inl AttributeError
   \<and> snd (score_call eigh idle_minimize
            (fst (score_call eigh idle_minimize example_multi_self (match_matrix example_multi)))
            (match_matrix example_multi)) = Inl AttributeError"
  by (simp add: example_eval)

section \<open>The all-zero match matrix\<close>

text \<open>
  C1 at a concrete input. For one reactant atom and one product atom with match weight
  \<open>0\<close>, the divisor \<open>2*C2\<close> of line 132 is zero, every entry of \<open>A\<close> is \<open>nan\<close>, and the
  call ends in the \<open>AssertionError\<close> of line 134, whatever the eigen-solver is.
\<close>

theorem zero_match_divides_by_zero:
  "self_score (example_single_self (Fin 0)) = Analytical_solver
   \<and> fl_mul (Fin 2) (make_C2 [[Fin 0]]) = Fin 0
   \<and> make_A (make_C1 [[Fin 0]] (self_Qt_dot_W (example_single_self (Fin 0)))) (make_C2 [[Fin 0]])
        (make_C3 [[Fin 0]] (self_W_minus_Q (example_single_self (Fin 0)))) =
      replicate 4 (replicate 4 NaN)
   \<and> snd (score_call eigh minimize (example_single_self (Fin 0)) [[Fin 0]]) = Inl AssertionError"
  by (simp add: example_eval)

section \<open>Finite arrays\<close>

lemma is_finite_iff: "is_finite x \<longleftrightarrow> (\<exists>v. x = Fin v)"
  by (cases x) auto

lemma finite_vec_Nil [simp]: "finite_vec []"
  by (simp add: finite_vec_def)

lemma finite_vec_Cons [simp]: "finite_vec (x # xs) \<longleftrightarrow> is_finite x \<and> finite_vec xs"
  by (simp add: finite_vec_def)



lemma finite_vec4_explicit:
  assumes "length v = 4" "finite_vec v"
  obtains a b c d where "v = [Fin a, Fin b, Fin c, Fin d]"
proof -
  from assms(1) obtain x1 x2 x3 x4 where v: "v = [x1, x2, x3, x4]"
    by (auto simp: numeral_eq_Suc length_Suc_conv)
  with assms(2) show ?thesis
    using that by (auto simp: is_finite_iff)
qed

lemma fin44_explicit:
  assumes "fin44 m"
  obtains a11 a12 a13 a14 a21 a22 a23 a24 a31 a32 a33 a34 a41 a42 a43 a44 where
    "m = [[Fin a11, Fin a12, Fin a13, Fin a14], [Fin a21, Fin a22, Fin a23, Fin a24],
          [Fin a31, Fin a32, Fin a33, Fin a34], [Fin a41, Fin a42, Fin a43, Fin a44]]"
proof -
  from assms obtain r1 r2 r3 r4 where m: "m = [r1, r2, r3, r4]"
    by (auto simp: fin44_def numeral_eq_Suc length_Suc_conv)
  with assms have r: "length r1 = 4" "finite_vec r1" "length r2 = 4" "finite_vec r2"
    "length r3 = 4" "finite_vec r3" "length r4 = 4" "finite_vec r4"
    by (auto simp: fin44_def)
  from r(1,2) obtain a11 a12 a13 a14 where r1: "r1 = [Fin a11, Fin a12, Fin a13, Fin a14]"
    by (rule finite_vec4_explicit)
  from r(3,4) obtain a21 a22 a23 a24 where r2: "r2 = [Fin a21, Fin a22, Fin a23, Fin a24]"
    by (rule finite_vec4_explicit)
  from r(5,6) obtain a31 a32 a33 a34 where r3: "r3 = [Fin a31, Fin a32, Fin a33, Fin a34]"
    by (rule finite_vec4_explicit)
  from r(7,8) obtain a41 a42 a43 a44 where r4: "r4 = [Fin a41, Fin a42, Fin a43, Fin a44]"
    by (rule finite_vec4_explicit)
  show ?thesis
    using that[of a11 a12 a13 a14 a21 a22 a23 a24 a31 a32 a33 a34 a41 a42 a43 a44]
    by (simp add: m r1 r2 r3 r4)
qed

lemma list_all_map2:
  "list_all P xs \<Longrightarrow> list_all Q ys \<Longrightarrow> (\<And>x y. P x \<Longrightarrow> Q y \<Longrightarrow> R (f x y)) \<Longrightarrow>
   list_all R (map2 f xs ys)"
  by (auto simp: list_all_iff) (meson set_zip_leftD set_zip_rightD)

lemma getitem_ix_list_all:
  "getitem_ix a rows cols = Inr b \<Longrightarrow> list_all (list_all P) a \<Longrightarrow> list_all (list_all P) b"
  by (auto simp: getitem_ix_def ix_ok_def list_all_iff split: if_splits) (meson nth_mem)








section \<open>Arrays of shape 4 by 4\<close>


lemma shape44_literal [simp]:
  "shape44 [[a11, a12, a13, a14], [a21, a22, a23, a24],
            [a31, a32, a33, a34], [a41, a42, a43, a44]]"
  by (simp add: shape44_def)








section \<open>The symmetry assertion\<close>

lemma analytical_block_asserts_symmetry:
  assumes "take_idx (self_X s) pids = Inr X" "take_idx (self_Y s) rids = Inr Y"
    "getitem_ix match rids pids = Inr m" "getitem_ix (self_Qt_dot_W s) rids pids = Inr t"
    "getitem_ix (self_W_minus_Q s) rids pids = Inr u"
    "\<not> allclose (make_A (make_C1 m t) (make_C2 m) (make_C3 m u))
         (transpose (make_A (make_C1 m t) (make_C2 m) (make_C3 m u)))"
  shows "analytical_block eigh match rids pids s = Inl AssertionError"
  using assms by (simp add: analytical_block_def block_distances_def Let_def)








section \<open>Symmetric blocks\<close>








































section \<open>Sub-blocks without weight\<close>

lemma foldl_fl_add_PInf:
  "list_all nonneg_finite xs \<Longrightarrow> foldl fl_add PInf xs = PInf"
proof (induction xs)
  case Nil
  show ?case by simp
next
  case (Cons x xs)
  then obtain b where "x = Fin b" by (cases x) auto
  with Cons show ?case by simp
qed

lemma foldl_fl_add_zero:
  "list_all nonneg_finite xs \<Longrightarrow> 0 \<le> a \<Longrightarrow> foldl fl_add (Fin a) xs = Fin 0 \<Longrightarrow>
   a = 0 \<and> list_all (\<lambda>x. x = Fin 0) xs"
proof (induction xs arbitrary: a)
  case Nil
  then show ?case by simp
next
  case (Cons x xs)
  from Cons.prems(1) obtain b where b: "x = Fin b" "0 \<le> b" by (cases x) auto
  from Cons.prems(1) have xs: "list_all nonneg_finite xs" by simp
  show ?case
  proof (cases "\<bar>a + b\<bar> < overflow_threshold")
    case True
    with Cons.prems(3) b have "foldl fl_add (Fin (a + b)) xs = Fin 0"
      by (simp add: to_float_def)
    from Cons.IH[OF xs _ this] Cons.prems(2) b show ?thesis by auto
  next
    case False
    with Cons.prems(2) b overflow_threshold_large have "to_float (a + b) = PInf"
      by (auto simp: to_float_def inf_of_def)
    with Cons.prems(3) b foldl_fl_add_PInf[OF xs] show ?thesis by simp
  qed
qed

lemma make_C2_zero_all_zero:
  assumes "nonneg_mat m" "make_C2 m = Fin 0"
  shows "list_all (list_all (\<lambda>x. x = Fin 0)) m"
proof -
  from assms(1) have "list_all nonneg_finite (concat m)"
    by (auto simp: nonneg_mat_def list_all_iff)
  from foldl_fl_add_zero[OF this, of 0] assms(2) have "list_all (\<lambda>x. x = Fin 0) (concat m)"
    by (simp add: make_C2_def fl_sum_def)
  then show ?thesis by (auto simp: list_all_iff)
qed

lemma mat_scale_zero: "fin44 b \<Longrightarrow> mat_scale (Fin 0) b = zeros44"
  by (erule fin44_explicit) (simp add: mat_scale_def zeros44_def eval_nat_numeral)

lemma foldl_mat_add_zeros: "list_all (\<lambda>b. b = zeros44) bs \<Longrightarrow> foldl mat_add zeros44 bs = zeros44"
  by (induction bs) (simp_all add: mat_add_def zeros44_def eval_nat_numeral)

lemma weighted_sum_zero:
  assumes "list_all (list_all (\<lambda>x. x = Fin 0)) m" "blocks_fin44 t"
  shows "weighted_sum m t = zeros44"
proof -
  have "list_all (list_all (\<lambda>b. b = zeros44)) (map2 (map2 mat_scale) m t)"
    using assms unfolding blocks_fin44_def
    by (rule list_all_map2) (rule list_all_map2, assumption+, simp add: mat_scale_zero)
  then have "list_all (\<lambda>b. b = zeros44) (concat (map2 (map2 mat_scale) m t))"
    by (auto simp: list_all_iff)
  then show ?thesis
    unfolding weighted_sum_def by (rule foldl_mat_add_zeros)
qed

lemma zero_weight_assertion_fails:
  assumes "nonneg_mat m" "blocks_fin44 t" "blocks_fin44 u" "make_C2 m = Fin 0"
  shows "\<not> allclose (make_A (make_C1 m t) (make_C2 m) (make_C3 m u))
            (transpose (make_A (make_C1 m t) (make_C2 m) (make_C3 m u)))"
proof -
  from make_C2_zero_all_zero[OF assms(1,4)] have z: "list_all (list_all (\<lambda>x. x = Fin 0)) m" .
  show ?thesis
    by (simp add: make_C1_def make_C3_def weighted_sum_zero[OF z assms(2)]
        weighted_sum_zero[OF z assms(3)] assms(4))
      (simp add: zeros44_def eval_nat_numeral make_A_def mat_scale_def mat_sub_def mat_div_def
        dot_mm_def dot_vv_def fl_sum_def fl_sub_def allclose_def)
qed

text \<open>
  A sub-block whose finite weights, none negative, sum to zero ends in the
  \<open>AssertionError\<close> of line 134 when its blocks of \<open>Qt_dot_W\<close> and \<open>W_minus_Q\<close> are
  finite.
\<close>

lemma zero_weight_block_raises:
  assumes "nonneg_mat match"
    "take_idx (self_X s) pids = Inr X" "take_idx (self_Y s) rids = Inr Y"
    "getitem_ix match rids pids = Inr m" "getitem_ix (self_Qt_dot_W s) rids pids = Inr t"
    "getitem_ix (self_W_minus_Q s) rids pids = Inr u" "blocks_fin44 t" "blocks_fin44 u"
    "make_C2 m = Fin 0"
  shows "analytical_block eigh match rids pids s = Inl AssertionError"
proof -
  from assms(1) have nm: "nonneg_mat m"
    using getitem_ix_list_all[OF assms(4)] by (simp add: nonneg_mat_def)
  from zero_weight_assertion_fails[OF nm assms(7,8,9)] show ?thesis
    by (rule analytical_block_asserts_symmetry[OF assms(2-6)])
qed

section \<open>Writes to the distance buffer\<close>





lemma fold_update_length:
  "length (fold (\<lambda>(j, x) row. row[j := x]) kvs row) = length row"
  by (induction kvs arbitrary: row) auto



lemma fold_rows_length:
  "length (fold (\<lambda>(i, vrow) b. b[i := G vrow (b ! i)]) ivs a) = length a"
  by (induction ivs arbitrary: a) auto





section \<open>The block of squared distances\<close>









section \<open>Distances are not negative\<close>













section \<open>The entries that the analytical solver writes\<close>





section \<open>The matrix that the scorer returns\<close>




section \<open>The analytical solver is idempotent\<close>

lemma same_shape_lengths:
  assumes "map length a = map length (b :: 'a list list)"
  shows "length a = length b" and "\<And>i. i < length b \<Longrightarrow> length (a ! i) = length (b ! i)"
proof -
  from assms have "length (map length a) = length (map length b)" by (rule arg_cong)
  then show l: "length a = length b" by simp
  fix i assume i: "i < length b"
  from assms have "map length a ! i = map length b ! i" by (rule arg_cong)
  with i l show "length (a ! i) = length (b ! i)" by simp
qed

lemma is_override_id: "is_override (\<lambda>d. d)"
  unfolding is_override_def by (rule exI[of _ "\<lambda>_ _. None"]) simp

lemma is_override_comp:
  assumes "is_override F" "is_override G"
  shows "is_override (\<lambda>d. G (F d))"
proof -
  from assms(1) obtain mF where
    F: "\<And>d. map length (F d) = map length d"
       "\<And>d i j. i < length d \<Longrightarrow> j < length (d ! i) \<Longrightarrow>
          F d ! i ! j = (case mF i j of Some v \<Rightarrow> v | None \<Rightarrow> d ! i ! j)"
    unfolding is_override_def by blast
  from assms(2) obtain mG where
    G: "\<And>d. map length (G d) = map length d"
       "\<And>d i j. i < length d \<Longrightarrow> j < length (d ! i) \<Longrightarrow>
          G d ! i ! j = (case mG i j of Some v \<Rightarrow> v | None \<Rightarrow> d ! i ! j)"
    unfolding is_override_def by blast
  let ?m = "\<lambda>i j. case mG i j of Some v \<Rightarrow> Some v | None \<Rightarrow> mF i j"
  have "map length (G (F d)) = map length d \<and>
        (\<forall>i<length d. \<forall>j<length (d ! i).
           G (F d) ! i ! j = (case ?m i j of Some v \<Rightarrow> v | None \<Rightarrow> d ! i ! j))" for d
  proof (intro conjI allI impI)
    show "map length (G (F d)) = map length d"
      by (simp only: G(1) F(1))
  next
    fix i j assume i: "i < length d" and j: "j < length (d ! i)"
    from same_shape_lengths[OF F(1)[of d]] i j
    have i': "i < length (F d)" and j': "j < length (F d ! i)" by simp_all
    show "G (F d) ! i ! j = (case ?m i j of Some v \<Rightarrow> v | None \<Rightarrow> d ! i ! j)"
      unfolding G(2)[OF i' j'] F(2)[OF i j]
      by (cases "mG i j") simp_all
  qed
  then show ?thesis
    unfolding is_override_def by (intro exI[of _ ?m]) blast
qed


lemma is_override_row:
  assumes "is_row_override G"
  shows "is_override (\<lambda>d. d[i := G (d ! i)])"
proof -
  from assms obtain m where
    G: "\<And>row. length (G row) = length row"
       "\<And>row j. j < length row \<Longrightarrow> G row ! j = (case m j of Some v \<Rightarrow> v | None \<Rightarrow> row ! j)"
    unfolding is_row_override_def by blast
  let ?m = "\<lambda>i' j. if i' = i then m j else None"
  have "map length (d[i := G (d ! i)]) = map length d \<and>
        (\<forall>i'<length d. \<forall>j<length (d ! i').
           d[i := G (d ! i)] ! i' ! j = (case ?m i' j of Some v \<Rightarrow> v | None \<Rightarrow> d ! i' ! j))" for d
  proof (intro conjI allI impI)
    show "map length (d[i := G (d ! i)]) = map length d"
    proof (cases "i < length d")
      case True
      then show ?thesis by (simp add: map_update G(1) list_update_same_conv)
    next
      case False
      then have "d[i := G (d ! i)] = d" by (intro list_update_beyond) simp
      then show ?thesis by simp
    qed
  next
    fix i' j assume i': "i' < length d" and j: "j < length (d ! i')"
    show "d[i := G (d ! i)] ! i' ! j = (case ?m i' j of Some v \<Rightarrow> v | None \<Rightarrow> d ! i' ! j)"
    proof (cases "i' = i")
      case True
      from i' j show ?thesis unfolding True by (simp add: G(2))
    next
      case False
      then show ?thesis by simp
    qed
  qed
  then show ?thesis
    unfolding is_override_def by (intro exI[of _ ?m]) blast
qed

lemma is_row_override_id: "is_row_override (\<lambda>row. row)"
  unfolding is_row_override_def by (rule exI[of _ "\<lambda>_. None"]) simp

lemma is_row_override_update: "is_row_override (\<lambda>row. row[j := x])"
  unfolding is_row_override_def
  by (rule exI[of _ "\<lambda>k. if k = j then Some x else None"]) (simp add: nth_list_update)

lemma is_row_override_comp:
  assumes "is_row_override F" "is_row_override G"
  shows "is_row_override (\<lambda>row. G (F row))"
proof -
  from assms(1) obtain mF where
    F: "\<And>row. length (F row) = length row"
       "\<And>row j. j < length row \<Longrightarrow> F row ! j = (case mF j of Some v \<Rightarrow> v | None \<Rightarrow> row ! j)"
    unfolding is_row_override_def by blast
  from assms(2) obtain mG where
    G: "\<And>row. length (G row) = length row"
       "\<And>row j. j < length row \<Longrightarrow> G row ! j = (case mG j of Some v \<Rightarrow> v | None \<Rightarrow> row ! j)"
    unfolding is_row_override_def by blast
  let ?m = "\<lambda>j. case mG j of Some v \<Rightarrow> Some v | None \<Rightarrow> mF j"
  have "length (G (F row)) = length row \<and>
        (\<forall>j<length row. G (F row) ! j = (case ?m j of Some v \<Rightarrow> v | None \<Rightarrow> row ! j))" for row
  proof (intro conjI allI impI)
    show "length (G (F row)) = length row" by (simp only: G(1) F(1))
  next
    fix j assume j: "j < length row"
    then have j': "j < length (F row)" by (simp only: F(1))
    show "G (F row) ! j = (case ?m j of Some v \<Rightarrow> v | None \<Rightarrow> row ! j)"
      unfolding G(2)[OF j'] F(2)[OF j] by (cases "mG j") simp_all
  qed
  then show ?thesis
    unfolding is_row_override_def by (intro exI[of _ ?m]) blast
qed

lemma is_row_override_fold:
  "is_row_override (fold (\<lambda>(j, x) row. row[j := x]) jx)"
proof (induction jx)
  case Nil
  show ?case by (simp add: is_row_override_id)
next
  case (Cons a jx)
  obtain j x where a: "a = (j, x)" by (cases a)
  from is_row_override_comp[OF is_row_override_update[of j x] Cons]
  show ?case by (simp add: a comp_def)
qed

lemma is_override_fold:
  "is_override (fold (\<lambda>(i, vrow) b. b[i := fold (\<lambda>(j, x) row. row[j := x]) (zip cols vrow) (b ! i)]) iv)"
proof (induction iv)
  case Nil
  show ?case by (simp add: is_override_id)
next
  case (Cons a iv)
  obtain i vrow where a: "a = (i, vrow)" by (cases a)
  from is_override_comp[OF is_override_row[OF is_row_override_fold[of "zip cols vrow"], of i] Cons]
  show ?case by (simp add: a comp_def)
qed

lemma is_override_shape: "is_override U \<Longrightarrow> map length (U d) = map length d"
  unfolding is_override_def by blast

lemma is_override_idem:
  assumes "is_override U"
  shows "U (U d) = U d"
proof -
  from assms obtain m where
    U: "\<And>d. map length (U d) = map length d"
       "\<And>d i j. i < length d \<Longrightarrow> j < length (d ! i) \<Longrightarrow>
          U d ! i ! j = (case m i j of Some v \<Rightarrow> v | None \<Rightarrow> d ! i ! j)"
    unfolding is_override_def by blast
  note l1 = same_shape_lengths[OF U(1)[of d]]
  note l2 = same_shape_lengths[OF U(1)[of "U d"]]
  show ?thesis
  proof (rule nth_equalityI)
    show "length (U (U d)) = length (U d)" by (rule l2(1))
  next
    fix i assume "i < length (U (U d))"
    then have iU: "i < length (U d)" by (simp only: l2(1))
    then have i: "i < length d" by (simp only: l1(1))
    show "U (U d) ! i = U d ! i"
    proof (rule nth_equalityI)
      show "length (U (U d) ! i) = length (U d ! i)" by (rule l2(2)[OF iU])
    next
      fix j assume "j < length (U (U d) ! i)"
      then have jU: "j < length (U d ! i)" by (simp only: l2(2)[OF iU])
      then have j: "j < length (d ! i)" by (simp only: l1(2)[OF i])
      show "U (U d) ! i ! j = U d ! i ! j"
        unfolding U(2)[OF iU jU] U(2)[OF i j] by (cases "m i j") simp_all
    qed
  qed
qed

lemma ix_ok_shape:
  assumes "map length a = map length (b :: 'a list list)"
  shows "ix_ok a rows cols = ix_ok b rows cols"
proof -
  have "ix_ok a rows cols \<longleftrightarrow>
      (\<forall>i\<in>set rows. i < length (map length a)) \<and> (\<forall>n\<in>set (map length a). \<forall>j\<in>set cols. j < n)"
    by (simp add: ix_ok_def)
  also have "\<dots> \<longleftrightarrow>
      (\<forall>i\<in>set rows. i < length (map length b)) \<and> (\<forall>n\<in>set (map length b). \<forall>j\<in>set cols. j < n)"
    by (simp only: assms)
  also have "\<dots> \<longleftrightarrow> ix_ok b rows cols"
    by (simp add: ix_ok_def)
  finally show ?thesis .
qed

lemma block_distances_buffer:
  "block_distances eigh match rids pids (s\<lparr>self_squared_distances := d\<rparr>) =
   block_distances eigh match rids pids s"
  by (simp add: block_distances_def cong: sum.case_cong)

lemma setitem_ix_outcome:
  "(\<forall>d. map length d = sh \<longrightarrow> setitem_ix d rows cols v = Inl IndexError) \<or>
   (\<exists>W. is_override W \<and> (\<forall>d. map length d = sh \<longrightarrow> setitem_ix d rows cols v = Inr (W d)))"
proof (cases "\<exists>d0 :: mat. map length d0 = sh \<and> ix_ok d0 rows cols")
  case True
  then obtain d0 :: mat where d0: "map length d0 = sh" "ix_ok d0 rows cols" by blast
  let ?W = "fold (\<lambda>(i, vrow) b. b[i := fold (\<lambda>(j, x) row. row[j := x]) (zip cols vrow) (b ! i)]) (zip rows v)"
  have "setitem_ix d rows cols v = Inr (?W d)" if "map length d = sh" for d
  proof -
    from that d0(1) have "map length d = map length d0" by simp
    from ix_ok_shape[OF this, of rows cols] d0(2) show ?thesis
      by (simp add: setitem_ix_def)
  qed
  with is_override_fold[of cols "zip rows v"] show ?thesis by blast
next
  case False
  then have "setitem_ix d rows cols v = Inl IndexError" if "map length d = sh" for d
    using that by (auto simp: setitem_ix_def)
  then show ?thesis by blast
qed

lemma analytical_block_outcome:
  "(\<exists>e. \<forall>d. map length d = sh \<longrightarrow>
          analytical_block eigh match rids pids (s\<lparr>self_squared_distances := d\<rparr>) = Inl e) \<or>
   (\<exists>W. is_override W \<and>
        (\<forall>d. map length d = sh \<longrightarrow>
          analytical_block eigh match rids pids (s\<lparr>self_squared_distances := d\<rparr>) =
            Inr (s\<lparr>self_squared_distances := W d\<rparr>)))"
proof (cases "block_distances eigh match rids pids s")
  case (Inl e)
  then show ?thesis
    by (simp add: analytical_block_def block_distances_buffer)
next
  case (Inr v)
  show ?thesis
  proof (cases "length pids \<noteq> length rids")
    case True
    with Inr show ?thesis
      by (simp add: analytical_block_def block_distances_buffer)
  next
    case False
    from setitem_ix_outcome[of sh rids pids v] show ?thesis
    proof
      assume "\<forall>d. map length d = sh \<longrightarrow> setitem_ix d rids pids v = Inl IndexError"
      with Inr False show ?thesis
        by (simp add: analytical_block_def block_distances_buffer)
    next
      assume "\<exists>W. is_override W \<and> (\<forall>d. map length d = sh \<longrightarrow> setitem_ix d rids pids v = Inr (W d))"
      then obtain W where W: "is_override W"
        "\<And>d. map length d = sh \<Longrightarrow> setitem_ix d rids pids v = Inr (W d)" by blast
      have "analytical_block eigh match rids pids (s\<lparr>self_squared_distances := d\<rparr>) =
            Inr (s\<lparr>self_squared_distances := W d\<rparr>)" if "map length d = sh" for d
        using Inr False W(2)[OF that]
        by (simp add: analytical_block_def block_distances_buffer)
      with W(1) show ?thesis by blast
    qed
  qed
qed

lemma for_each_outcome:
  assumes "\<And>x. x \<in> set xs \<Longrightarrow>
     (\<exists>e. \<forall>d. map length d = sh \<longrightarrow> body x (s\<lparr>self_squared_distances := d\<rparr>) = Inl e) \<or>
     (\<exists>W. is_override W \<and>
        (\<forall>d. map length d = sh \<longrightarrow>
           body x (s\<lparr>self_squared_distances := d\<rparr>) = Inr (s\<lparr>self_squared_distances := W d\<rparr>)))"
  shows "\<exists>U r. is_override U \<and>
     (\<forall>d. map length d = sh \<longrightarrow>
        for_each body xs (s\<lparr>self_squared_distances := d\<rparr>) = (s\<lparr>self_squared_distances := U d\<rparr>, r))"
  using assms
proof (induction xs)
  case Nil
  have "for_each body [] (s\<lparr>self_squared_distances := d\<rparr>) = (s\<lparr>self_squared_distances := d\<rparr>, None)" for d
    by simp
  with is_override_id show ?case by blast
next
  case (Cons x xs)
  have step: "\<And>y. y \<in> set xs \<Longrightarrow>
     (\<exists>e. \<forall>d. map length d = sh \<longrightarrow> body y (s\<lparr>self_squared_distances := d\<rparr>) = Inl e) \<or>
     (\<exists>W. is_override W \<and>
        (\<forall>d. map length d = sh \<longrightarrow>
           body y (s\<lparr>self_squared_distances := d\<rparr>) = Inr (s\<lparr>self_squared_distances := W d\<rparr>)))"
    using Cons.prems by simp
  from Cons.IH[OF step] obtain U r where U: "is_override U"
    "\<And>d. map length d = sh \<Longrightarrow>
        for_each body xs (s\<lparr>self_squared_distances := d\<rparr>) = (s\<lparr>self_squared_distances := U d\<rparr>, r)"
    by blast
  from Cons.prems[of x] consider
    (fail) e where "\<And>d. map length d = sh \<Longrightarrow> body x (s\<lparr>self_squared_distances := d\<rparr>) = Inl e"
  | (ok) W where "is_override W"
      "\<And>d. map length d = sh \<Longrightarrow>
         body x (s\<lparr>self_squared_distances := d\<rparr>) = Inr (s\<lparr>self_squared_distances := W d\<rparr>)"
    by auto
  then show ?case
  proof cases
    case fail
    then have "for_each body (x # xs) (s\<lparr>self_squared_distances := d\<rparr>) =
        (s\<lparr>self_squared_distances := d\<rparr>, Some e)" if "map length d = sh" for d
      using that by simp
    with is_override_id show ?thesis by blast
  next
    case ok
    have "for_each body (x # xs) (s\<lparr>self_squared_distances := d\<rparr>) =
        (s\<lparr>self_squared_distances := U (W d)\<rparr>, r)" if "map length d = sh" for d
    proof -
      from is_override_shape[OF ok(1), of d] that have "map length (W d) = sh" by simp
      from U(2)[OF this] ok(2)[OF that] show ?thesis by simp
    qed
    with is_override_comp[OF ok(1) U(1)] show ?thesis by blast
  qed
qed

lemma for_each_nested_outcome:
  assumes "\<And>x. x \<in> set xs \<Longrightarrow>
     \<exists>U r. is_override U \<and>
       (\<forall>d. map length d = sh \<longrightarrow>
          body x (s\<lparr>self_squared_distances := d\<rparr>) = (s\<lparr>self_squared_distances := U d\<rparr>, r))"
  shows "\<exists>U r. is_override U \<and>
     (\<forall>d. map length d = sh \<longrightarrow>
        for_each_nested body xs (s\<lparr>self_squared_distances := d\<rparr>) =
          (s\<lparr>self_squared_distances := U d\<rparr>, r))"
  using assms
proof (induction xs)
  case Nil
  have "for_each_nested body [] (s\<lparr>self_squared_distances := d\<rparr>) =
      (s\<lparr>self_squared_distances := d\<rparr>, None)" for d
    by simp
  with is_override_id show ?case by blast
next
  case (Cons x xs)
  have step: "\<And>y. y \<in> set xs \<Longrightarrow>
     \<exists>U r. is_override U \<and>
       (\<forall>d. map length d = sh \<longrightarrow>
          body y (s\<lparr>self_squared_distances := d\<rparr>) = (s\<lparr>self_squared_distances := U d\<rparr>, r))"
    using Cons.prems by simp
  from Cons.IH[OF step] obtain U r where U: "is_override U"
    "\<And>d. map length d = sh \<Longrightarrow>
        for_each_nested body xs (s\<lparr>self_squared_distances := d\<rparr>) =
          (s\<lparr>self_squared_distances := U d\<rparr>, r)"
    by blast
  from Cons.prems[of x] obtain W rw where W: "is_override W"
    "\<And>d. map length d = sh \<Longrightarrow>
        body x (s\<lparr>self_squared_distances := d\<rparr>) = (s\<lparr>self_squared_distances := W d\<rparr>, rw)"
    by auto
  show ?case
  proof (cases rw)
    case (Some e)
    with W(2) have "for_each_nested body (x # xs) (s\<lparr>self_squared_distances := d\<rparr>) =
        (s\<lparr>self_squared_distances := W d\<rparr>, Some e)" if "map length d = sh" for d
      using that by simp
    with W(1) show ?thesis by blast
  next
    case None
    have "for_each_nested body (x # xs) (s\<lparr>self_squared_distances := d\<rparr>) =
        (s\<lparr>self_squared_distances := U (W d)\<rparr>, r)" if "map length d = sh" for d
    proof -
      from is_override_shape[OF W(1), of d] that have "map length (W d) = sh" by simp
      from U(2)[OF this] W(2)[OF that] None show ?thesis by simp
    qed
    with is_override_comp[OF W(1) U(1)] show ?thesis by blast
  qed
qed

lemma analytical_solver_outcome:
  "\<exists>U r. is_override U \<and>
     (\<forall>d. map length d = sh \<longrightarrow>
        analytical_solver eigh (s\<lparr>self_squared_distances := d\<rparr>) match =
          (s\<lparr>self_squared_distances := U d\<rparr>,
           case r of Some e \<Rightarrow> Inl e | None \<Rightarrow> Inr (U d)))"
proof -
  let ?R = "reactant_subset_indices (self_M s)"
  let ?P = "product_subset_indices (self_M s)"
  let ?body = "\<lambda>rids. for_each (\<lambda>pids. analytical_block eigh match rids pids) ?P"
  have unfold: "analytical_solver eigh (s\<lparr>self_squared_distances := d\<rparr>) match =
     (case getitem ?R 0 of Inl e \<Rightarrow> (s\<lparr>self_squared_distances := d\<rparr>, Inl e)
      | Inr ref_indices \<Rightarrow>
     (case take_idx (self_Y s) ref_indices of Inl e \<Rightarrow> (s\<lparr>self_squared_distances := d\<rparr>, Inl e)
      | Inr Y0 \<Rightarrow>
     (case for_each_nested ?body ?R (s\<lparr>self_squared_distances := d\<rparr>) of
        (self', Some e) \<Rightarrow> (self', Inl e)
      | (self', None) \<Rightarrow> (self', Inr (self_squared_distances self')))))" for d
    by (simp add: analytical_solver_def cong: sum.case_cong)
  have inner: "\<exists>U r. is_override U \<and>
       (\<forall>d. map length d = sh \<longrightarrow>
          ?body rids (s\<lparr>self_squared_distances := d\<rparr>) = (s\<lparr>self_squared_distances := U d\<rparr>, r))"
    for rids
    by (rule for_each_outcome) (rule analytical_block_outcome)
  have "\<exists>U r. is_override U \<and>
     (\<forall>d. map length d = sh \<longrightarrow>
        for_each_nested ?body ?R (s\<lparr>self_squared_distances := d\<rparr>) =
          (s\<lparr>self_squared_distances := U d\<rparr>, r))"
    by (rule for_each_nested_outcome) (rule inner)
  then obtain U r where U: "is_override U"
    "\<And>d. map length d = sh \<Longrightarrow>
        for_each_nested ?body ?R (s\<lparr>self_squared_distances := d\<rparr>) =
          (s\<lparr>self_squared_distances := U d\<rparr>, r)"
    by blast
  show ?thesis
  proof (cases "getitem ?R 0")
    case (Inl e)
    then have "analytical_solver eigh (s\<lparr>self_squared_distances := d\<rparr>) match =
          (s\<lparr>self_squared_distances := d\<rparr>, case Some e of Some e \<Rightarrow> Inl e | None \<Rightarrow> Inr d)" for d
      by (simp add: unfold)
    with is_override_id show ?thesis by blast
  next
    case (Inr ref_indices)
    note ref = this
    show ?thesis
    proof (cases "take_idx (self_Y s) ref_indices")
      case (Inl e)
      with ref have "analytical_solver eigh (s\<lparr>self_squared_distances := d\<rparr>) match =
          (s\<lparr>self_squared_distances := d\<rparr>, case Some e of Some e \<Rightarrow> Inl e | None \<Rightarrow> Inr d)" for d
        by (simp add: unfold)
      with is_override_id show ?thesis by blast
    next
      case (Inr Y0)
      with ref U(2) have "analytical_solver eigh (s\<lparr>self_squared_distances := d\<rparr>) match =
          (s\<lparr>self_squared_distances := U d\<rparr>, case r of Some e \<Rightarrow> Inl e | None \<Rightarrow> Inr (U d))"
        if "map length d = sh" for d
        using that by (cases r) (simp_all add: unfold)
      with U(1) show ?thesis by blast
    qed
  qed
qed

text \<open>
  A second call of the analytical solver with the same match matrix returns what the
  first returned, the same matrix or the same exception, and leaves the state as the
  first call left it: each block written depends only on the match matrix and on the
  arrays fixed at construction.
\<close>

lemma analytical_solver_idempotent:
  assumes "analytical_solver eigh s match = (s1, r1)"
  shows "analytical_solver eigh s1 match = (s1, r1)"
proof -
  let ?sh = "map length (self_squared_distances s)"
  from analytical_solver_outcome[of ?sh eigh s match] obtain U r where U: "is_override U"
    "\<And>d. map length d = ?sh \<Longrightarrow>
        analytical_solver eigh (s\<lparr>self_squared_distances := d\<rparr>) match =
          (s\<lparr>self_squared_distances := U d\<rparr>,
           case r of Some e \<Rightarrow> Inl e | None \<Rightarrow> Inr (U d))"
    by blast
  let ?d = "self_squared_distances s"
  from U(2)[of ?d] assms have s1: "s1 = s\<lparr>self_squared_distances := U ?d\<rparr>"
    and r1: "r1 = (case r of Some e \<Rightarrow> Inl e | None \<Rightarrow> Inr (U ?d))"
    by simp_all
  from is_override_shape[OF U(1), of ?d] have "map length (U ?d) = ?sh" .
  from U(2)[OF this, unfolded is_override_idem[OF U(1)]] show ?thesis
    by (simp only: s1 r1)
qed


lemma score_call_analytical_idempotent:
  assumes "self_score s = Analytical_solver" "score_call eigh minimize s match = (s1, r1)"
  shows "score_call eigh minimize s1 match = (s1, r1)"
proof -
  from assms have a: "analytical_solver eigh s match = (s1, r1)"
    by (simp add: score_call_def)
  from analytical_solver_fixed_part[of eigh s match] a assms(1)
  have "self_score s1 = Analytical_solver" by (simp add: fixed_part_def)
  with analytical_solver_idempotent[OF a] show ?thesis
    by (simp add: score_call_def)
qed

end
